theory Spec2Isabelle
  imports Complex_Main "HOL-Library.AList"
begin

section \<open>Go primitives used by the browser\<close>

text \<open>
  Go's \<^verbatim>\<open>int\<close> is modelled as \<^typ>\<open>int\<close>: every quantity below is a count of
  directory entries, a terminal dimension or a grid coordinate, far away from the 64-bit
  limits. Go strings are byte sequences and \<^verbatim>\<open>len\<close> counts bytes, as
  \<^const>\<open>length\<close> does on \<^typ>\<open>string\<close>.
\<close>

datatype panic =
    DivideByZero
  | IndexOutOfRange
  | SliceBoundsOutOfRange
  | ReadDirFailed
  | StatFailed

text \<open>Integer \<^verbatim>\<open>/\<close> and \<^verbatim>\<open>%\<close> of Go truncate towards zero; the divisor
  zero is a run-time panic, tested by the callers below.\<close>

definition go_quo :: "int \<Rightarrow> int \<Rightarrow> int" where
  "go_quo a b = sgn a * sgn b * (\<bar>a\<bar> div \<bar>b\<bar>)"

definition go_rem :: "int \<Rightarrow> int \<Rightarrow> int" where
  "go_rem a b = a - b * go_quo a b"

text \<open>\<^verbatim>\<open>int(math.Ceil(float64(n) / float64(k)))\<close> for \<open>k > 0\<close>: the ceiling of the
  quotient (exact in float64 for the sizes a directory listing can have).\<close>

definition ceil_quo :: "int \<Rightarrow> int \<Rightarrow> int" where
  "ceil_quo n k = - ((- n) div k)"

text \<open>\<^verbatim>\<open>strings.Join\<close>, \<^verbatim>\<open>strings.Repeat\<close> and \<^verbatim>\<open>strings.Replace\<close> (all
  occurrences of a one-byte pattern; the first occurrence of any pattern).\<close>

fun Join :: "string list \<Rightarrow> string \<Rightarrow> string" where
  "Join [] sep = []"
| "Join [x] sep = x"
| "Join (x # y # ys) sep = x @ sep @ Join (y # ys) sep"

definition Repeat :: "string \<Rightarrow> nat \<Rightarrow> string" where
  "Repeat s n = concat (replicate n s)"

definition ReplaceAllChar :: "string \<Rightarrow> char \<Rightarrow> string \<Rightarrow> string" where
  "ReplaceAllChar s old new = concat (map (\<lambda>x. if x = old then new else [x]) s)"

fun ReplaceFirst :: "string \<Rightarrow> string \<Rightarrow> string \<Rightarrow> string" where
  "ReplaceFirst [] old new = (if old = [] then new else [])"
| "ReplaceFirst (x # xs) old new =
     (if take (length old) (x # xs) = old then new @ drop (length old) (x # xs)
      else x # ReplaceFirst xs old new)"

definition tab :: char where
  "tab = CHR 0x09"

definition separator :: string where
  "separator = ''    ''"

text \<open>
  Paths. \<^verbatim>\<open>m.path\<close> is always a cleaned absolute Unix path (it starts as
  \<^verbatim>\<open>os.Getwd()\<close> or \<^verbatim>\<open>filepath.Abs\<close> and is only ever changed by the three
  functions below). On such paths, and for an entry name (non-empty, without a slash,
  neither \<^verbatim>\<open>.\<close> nor \<^verbatim>\<open>..\<close>):
  \<^item> \<open>path_Join p n\<close> is \<^verbatim>\<open>path.Join(p, n)\<close>;
  \<^item> \<open>path_Up p\<close> is \<^verbatim>\<open>filepath.Join(p, "..")\<close>;
  \<^item> \<open>path_Base p\<close> is \<^verbatim>\<open>filepath.Base(p)\<close>.
\<close>

definition slash :: char where
  "slash = CHR ''/''"

definition path_Join :: "string \<Rightarrow> string \<Rightarrow> string" where
  "path_Join p n = (if p = [] then n else if p = [slash] then slash # n else p @ slash # n)"

definition path_Up :: "string \<Rightarrow> string" where
  "path_Up p =
     (let q = rev (tl (dropWhile (\<lambda>x. x \<noteq> slash) (rev p)))
      in if q = [] then [slash] else q)"

definition path_Base :: "string \<Rightarrow> string" where
  "path_Base p =
     (if p = [] then ''.''
      else if p = [slash] then [slash]
      else rev (takeWhile (\<lambda>x. x \<noteq> slash) (rev p)))"

section \<open>The model\<close>

record entry =
  name :: string
  isDir :: bool

record position =
  position_c :: int
  position_r :: int
  position_offset :: int

text \<open>
  The model. The map of remembered positions is kept as an association list that is read
  with \<^const>\<open>map_of\<close> and written with \<^const>\<open>AList.update\<close> only, which
  replaces the entry of a key or adds one: \<open>map_of (AList.update k v ps) = (map_of ps)(k \<mapsto> v)\<close>.
\<close>

record model =
  path :: string
  files :: "entry list"
  c :: int
  r :: int
  columns :: int
  rows :: int
  width :: int
  height :: int
  offset :: int
  positions :: "(string \<times> position) list"
  search :: string
  searchMode :: bool
  searchId :: int
  matchedIndexes :: "int list"
  prevName :: string
  findPrevName :: bool
  exitCode :: int
  previewMode :: bool
  previewContent :: string

text \<open>A key message, as far as the program looks at it: \<^verbatim>\<open>msg.String()\<close> (what
  \<^verbatim>\<open>key.Matches\<close> compares with the bindings), whether \<^verbatim>\<open>msg.Type\<close> is
  \<^verbatim>\<open>tea.KeyRunes\<close>, and \<^verbatim>\<open>string(msg.Runes)\<close>.\<close>

record key =
  keyString :: string
  isRunes :: bool
  runes :: string

datatype msg =
    WindowSizeMsg int int
  | KeyMsg key
  | ClearSearchMsg int
  | PreviewMsg string
  | OtherMsg

text \<open>The commands \<^verbatim>\<open>Update\<close> returns: \<^verbatim>\<open>nil\<close>, \<^verbatim>\<open>tea.Quit\<close> (with what was
  printed on standard output before), the two-second tick carrying the search id, the
  preview command (alone, or after entering the alternate screen), leaving the alternate
  screen, and the editor process on a file.\<close>

datatype cmd =
    NoCmd
  | Quit "string option"
  | Tick int
  | PreviewCmd
  | EnterAltScreenThenPreview
  | ExitAltScreen
  | ExecEditor string

text \<open>One match of \<^verbatim>\<open>fuzzy.Find\<close>: the index of the candidate and the matched
  character positions.\<close>

record fmatch =
  Index :: int
  MatchedIndexes :: "int list"

text \<open>What the program gets from outside: the file system, the UTF-8 test, the fuzzy
  matcher, the home directory and the styling functions of the terminal library.\<close>

record env =
  readDir :: "string \<Rightarrow> entry list option"
  statIsDir :: "string \<Rightarrow> bool option"
  openAndRead :: "string \<Rightarrow> string + string"
  utf8Valid :: "string \<Rightarrow> bool"
  fuzzyFind :: "string \<Rightarrow> string list \<Rightarrow> fmatch list"
  userHomeDir :: "string option"
  renderWarning :: "string \<Rightarrow> string"
  renderCursor :: "string \<Rightarrow> string"
  renderBar :: "string \<Rightarrow> string"
  renderSearch :: "string \<Rightarrow> string"
  renderPreview :: "int \<Rightarrow> string \<Rightarrow> string"
  joinHorizontal :: "string \<Rightarrow> string \<Rightarrow> string"

subsection \<open>Key bindings\<close>

definition key_Matches :: "key \<Rightarrow> string list \<Rightarrow> bool" where
  "key_Matches k bindings = (keyString k \<in> set bindings)"

definition keyForceQuit :: "string list" where "keyForceQuit = [''ctrl+c'']"
definition keyQuit :: "string list" where "keyQuit = [''esc'']"
definition keyOpen :: "string list" where "keyOpen = [''enter'']"
definition keyBack :: "string list" where "keyBack = [''backspace'']"
definition keyUp :: "string list" where "keyUp = [''up'']"
definition keyDown :: "string list" where "keyDown = [''down'']"
definition keyLeft :: "string list" where "keyLeft = [''left'']"
definition keyRight :: "string list" where "keyRight = [''right'']"
definition keyTop :: "string list" where "keyTop = [''shift+up'']"
definition keyBottom :: "string list" where "keyBottom = [''shift+down'']"
definition keyLeftmost :: "string list" where "keyLeftmost = [''shift+left'']"
definition keyRightmost :: "string list" where "keyRightmost = [''shift+right'']"
definition keyVimUp :: "string list" where "keyVimUp = [''k'']"
definition keyVimDown :: "string list" where "keyVimDown = [''j'']"
definition keyVimLeft :: "string list" where "keyVimLeft = [''h'']"
definition keyVimRight :: "string list" where "keyVimRight = [''l'']"
definition keyVimTop :: "string list" where "keyVimTop = [''g'']"
definition keyVimBottom :: "string list" where "keyVimBottom = [''G'']"
definition keySearch :: "string list" where "keySearch = [''/'']"
definition keyPreview :: "string list" where "keyPreview = ['' '']"

subsection \<open>Cursor movement\<close>

definition past_last :: "model \<Rightarrow> bool" where
  "past_last m \<longleftrightarrow>
     c m = columns m - 1 \<and> (columns m - 1) * rows m + r m \<ge> int (length (files m))"

definition last_row :: "model \<Rightarrow> int" where
  "last_row m = rows m - 1 - (columns m * rows m - int (length (files m)))"

definition moveUp :: "model \<Rightarrow> model" where
  "moveUp m =
     (let m1 = m\<lparr>r := r m - 1\<rparr>;
          m2 = (if r m1 < 0 then m1\<lparr>r := rows m1 - 1, c := c m1 - 1\<rparr> else m1);
          m3 = (if c m2 < 0 then m2\<lparr>r := last_row m2, c := columns m2 - 1\<rparr> else m2)
      in m3)"

definition moveDown :: "model \<Rightarrow> model" where
  "moveDown m =
     (let m1 = m\<lparr>r := r m + 1\<rparr>;
          m2 = (if r m1 \<ge> rows m1 then m1\<lparr>r := 0, c := c m1 + 1\<rparr> else m1);
          m3 = (if c m2 \<ge> columns m2 then m2\<lparr>c := 0\<rparr> else m2);
          m4 = (if past_last m3 then m3\<lparr>r := 0, c := 0\<rparr> else m3)
      in m4)"

definition moveLeft :: "model \<Rightarrow> model" where
  "moveLeft m =
     (let m1 = m\<lparr>c := c m - 1\<rparr>;
          m2 = (if c m1 < 0 then m1\<lparr>c := columns m1 - 1\<rparr> else m1);
          m3 = (if past_last m2 then m2\<lparr>r := last_row m2, c := columns m2 - 1\<rparr> else m2)
      in m3)"

definition moveRight :: "model \<Rightarrow> model" where
  "moveRight m =
     (let m1 = m\<lparr>c := c m + 1\<rparr>;
          m2 = (if c m1 \<ge> columns m1 then m1\<lparr>c := 0\<rparr> else m1);
          m3 = (if past_last m2 then m2\<lparr>r := last_row m2, c := columns m2 - 1\<rparr> else m2)
      in m3)"

definition moveTop :: "model \<Rightarrow> model" where
  "moveTop m = m\<lparr>r := 0\<rparr>"

definition moveBottom :: "model \<Rightarrow> model" where
  "moveBottom m =
     (let m1 = m\<lparr>r := rows m - 1\<rparr>
      in if past_last m1 then m1\<lparr>r := last_row m1\<rparr> else m1)"

definition moveLeftmost :: "model \<Rightarrow> model" where
  "moveLeftmost m = m\<lparr>c := 0\<rparr>"

definition moveRightmost :: "model \<Rightarrow> model" where
  "moveRightmost m =
     (let m1 = m\<lparr>c := columns m - 1\<rparr>
      in if past_last m1 then m1\<lparr>r := last_row m1, c := columns m1 - 1\<rparr> else m1)"

subsection \<open>Scrolling, position memory, the selected file\<close>

definition listHeight :: "model \<Rightarrow> int" where
  "listHeight m = height m - 1"

definition updateOffset :: "model \<Rightarrow> model" where
  "updateOffset m =
     (let h = listHeight m;
          m1 = (if r m \<ge> offset m + h then m\<lparr>offset := r m - h + 1\<rparr> else m);
          m2 = (if r m1 < offset m1 then m1\<lparr>offset := r m1\<rparr> else m1);
          m3 = (if offset m2 > rows m2 - h \<and> rows m2 > h
                then m2\<lparr>offset := rows m2 - h\<rparr> else m2)
      in m3)"

definition saveCursorPosition :: "model \<Rightarrow> model" where
  "saveCursorPosition m =
     m\<lparr>positions := AList.update (path m)
          \<lparr>position_c = c m, position_r = r m, position_offset = offset m\<rparr> (positions m)\<rparr>"

definition linear_index :: "model \<Rightarrow> int" where
  "linear_index m = c m * rows m + r m"

text \<open>\<^verbatim>\<open>fileName\<close> and \<^verbatim>\<open>filePath\<close> return a pair \<open>(value, ok)\<close>; a negative
  index makes \<^verbatim>\<open>m.files[i]\<close> panic.\<close>

definition fileName :: "model \<Rightarrow> panic + string \<times> bool" where
  "fileName m =
     (let i = c m * rows m + r m
      in if i \<ge> int (length (files m)) then Inr ([], False)
         else if i < 0 then Inl IndexOutOfRange
         else Inr (name (files m ! nat i), True))"

definition filePath :: "model \<Rightarrow> panic + string \<times> bool" where
  "filePath m =
     (case fileName m of
        Inl p \<Rightarrow> Inl p
      | Inr (fname, ok) \<Rightarrow>
          if \<not> ok then Inr (fname, False)
          else Inr (path_Join (path m) fname, True))"

definition list :: "env \<Rightarrow> model \<Rightarrow> panic + model" where
  "list e m =
     (case readDir e (path m) of
        None \<Rightarrow> Inl ReadDirFailed
      | Some fs \<Rightarrow> Inr (m\<lparr>files := fs\<rparr>))"

definition openEditor :: "model \<Rightarrow> panic + cmd" where
  "openEditor m =
     (case filePath m of
        Inl p \<Rightarrow> Inl p
      | Inr (fpath, ok) \<Rightarrow> if \<not> ok then Inr NoCmd else Inr (ExecEditor fpath))"

text \<open>The preview command is a method value on the model pointer: when the runtime runs
  it, it reads the model as it is then, and produces a message or \<^verbatim>\<open>nil\<close>.\<close>

definition previewCmd :: "model \<Rightarrow> panic + msg option" where
  "previewCmd m =
     (case filePath m of
        Inl p \<Rightarrow> Inl p
      | Inr (fpath, ok) \<Rightarrow> if \<not> ok then Inr None else Inr (Some (PreviewMsg fpath)))"

subsection \<open>View: the grid layout\<close>

text \<open>
  One cell of the inner loop of \<^verbatim>\<open>View\<close>: \<open>n\<close> counts the entries placed so far,
  \<open>(cc, rr)\<close> is the cursor (moved to the cell of \<^verbatim>\<open>prevName\<close> when
  \<^verbatim>\<open>findPrevName\<close> is set), \<open>mx\<close> the widest name of the column so far and
  \<open>col\<close> the column's cells.
\<close>

definition fill_cell ::
  "entry list \<Rightarrow> bool \<Rightarrow> string \<Rightarrow> nat \<Rightarrow> nat \<Rightarrow>
   nat \<times> int \<times> int \<times> nat \<times> string list \<Rightarrow> nat \<times> int \<times> int \<times> nat \<times> string list" where
  "fill_cell fs fp pn i j st =
     (case st of (n, cc, rr, mx, col) \<Rightarrow>
        if n < length fs then
          (let nm = name (fs ! n);
               cur = (if fp \<and> pn = nm then (int i, int j) else (cc, rr));
               shown = (if isDir (fs ! n) then nm @ [slash] else nm)
           in (n + 1, fst cur, snd cur, max mx (length shown), col @ [shown]))
        else (n, cc, rr, mx, col @ [Nil]))"

definition fill_column ::
  "entry list \<Rightarrow> bool \<Rightarrow> string \<Rightarrow> int \<Rightarrow> nat \<Rightarrow> nat \<times> int \<times> int \<Rightarrow>
   (nat \<times> int \<times> int) \<times> string list" where
  "fill_column fs fp pn rws i st =
     (case st of (n, cc, rr) \<Rightarrow>
        (case fold (fill_cell fs fp pn i) [0..<nat rws] (n, cc, rr, 0, []) of
           (n', cc', rr', mx, col) \<Rightarrow>
             ((n', cc', rr'), map (\<lambda>s. s @ Repeat '' '' (mx - length s)) col)))"

definition build_names ::
  "entry list \<Rightarrow> bool \<Rightarrow> string \<Rightarrow> int \<Rightarrow> int \<Rightarrow> int \<times> int \<Rightarrow>
   (int \<times> int) \<times> string list list" where
  "build_names fs fp pn cols rws cur =
     (case fold (\<lambda>i acc. case fill_column fs fp pn rws i (fst acc) of
                           (st', col) \<Rightarrow> (st', snd acc @ [col]))
                [0..<nat cols] ((0, fst cur, snd cur), []) of
        ((n, cc, rr), names) \<Rightarrow> ((cc, rr), names))"

definition row_of :: "string list list \<Rightarrow> nat \<Rightarrow> string list" where
  "row_of names j = map (\<lambda>col. col ! j) names"

definition too_wide :: "string list list \<Rightarrow> int \<Rightarrow> int \<Rightarrow> bool" where
  "too_wide names rws w =
     list_ex (\<lambda>j. int (length (Join (row_of names j) separator)) > w) [0..<nat rws]"

text \<open>The \<^verbatim>\<open>start:\<close> loop: lay out with \<open>cols\<close> columns; if a row is wider than
  the display and there is more than one column, retry with one column less. The result
  is the final column count, the row count, the padded names and the cursor.\<close>

function layout_loop ::
  "entry list \<Rightarrow> bool \<Rightarrow> string \<Rightarrow> int \<Rightarrow> int \<Rightarrow> int \<times> int \<Rightarrow>
   int \<times> int \<times> string list list \<times> int \<times> int" where
  "layout_loop fs fp pn w cols cur =
     (if too_wide (snd (build_names fs fp pn cols (ceil_quo (int (length fs)) cols) cur))
           (ceil_quo (int (length fs)) cols) w \<and> cols > 1
      then layout_loop fs fp pn w (cols - 1)
             (fst (build_names fs fp pn cols (ceil_quo (int (length fs)) cols) cur))
      else (cols, ceil_quo (int (length fs)) cols,
            snd (build_names fs fp pn cols (ceil_quo (int (length fs)) cols) cur),
            fst (build_names fs fp pn cols (ceil_quo (int (length fs)) cols) cur)))"
  by pat_completeness auto
termination
  by (relation "measure (\<lambda>(fs, fp, pn, w, cols, cur). nat cols)") auto

declare layout_loop.simps [simp del]

definition view_width :: "model \<Rightarrow> int" where
  "view_width m = (if previewMode m then go_quo (width m) 2 else width m)"

definition initial_columns :: "model \<Rightarrow> panic + int" where
  "initial_columns m =
     (if go_quo (listHeight m) 3 = 0 then Inl DivideByZero
      else (let cols = go_quo (int (length (files m))) (go_quo (listHeight m) 3)
            in Inr (if cols \<le> 0 then 1 else cols)))"

definition View_layout :: "model \<Rightarrow> panic + model \<times> string list list" where
  "View_layout m =
     (case initial_columns m of
        Inl p \<Rightarrow> Inl p
      | Inr cols0 \<Rightarrow>
          (case layout_loop (files m) (findPrevName m) (prevName m) (view_width m) cols0
                  (c m, r m) of
             (cols, rws, names, cc, rr) \<Rightarrow>
               (let m1 = m\<lparr>columns := cols, rows := rws, c := cc, r := rr\<rparr>;
                    m2 = (if findPrevName m1
                          then saveCursorPosition (updateOffset (m1\<lparr>findPrevName := False\<rparr>))
                          else m1)
                in Inr (m2, names))))"

subsection \<open>View: the visible rows and the location bar\<close>

definition View_output :: "env \<Rightarrow> model \<Rightarrow> string list list \<Rightarrow> panic + string list" where
  "View_output e m names =
     (let output =
            map (\<lambda>j. Join (map (\<lambda>i. if int i = c m \<and> int j = r m
                                     then renderCursor e (names ! i ! j)
                                     else names ! i ! j) [0..<nat (columns m)]) separator)
                [0..<nat (rows m)]
      in if int (length output) \<ge> offset m + listHeight m then
           (if offset m < 0 \<or> offset m + listHeight m < offset m
            then Inl SliceBoundsOutOfRange
            else Inr (drop (nat (offset m)) (take (nat (offset m + listHeight m)) output)))
         else Inr output)"

definition location_text :: "env \<Rightarrow> model \<Rightarrow> string" where
  "location_text e m =
     (case userHomeDir e of
        None \<Rightarrow> path m
      | Some home \<Rightarrow> ReplaceFirst (path m) home ''~'')"

definition filter_text :: "model \<Rightarrow> string" where
  "filter_text m = (if searchMode m then slash # search m else [])"

text \<open>\<^verbatim>\<open>location[barLen-width:]\<close> panics when the lower bound is beyond the length of
  the string (the bound cannot be negative here, as \<open>barLen > width\<close>).\<close>

definition truncate_location :: "string \<Rightarrow> string \<Rightarrow> int \<Rightarrow> panic + string" where
  "truncate_location location flt w =
     (let barLen = int (length location) + int (length flt)
      in if barLen > w then
           (if barLen - w > int (length location) then Inl SliceBoundsOutOfRange
            else Inr (drop (nat (barLen - w)) location))
         else Inr location)"

definition View_bar :: "env \<Rightarrow> model \<Rightarrow> panic + string" where
  "View_bar e m =
     (case truncate_location (location_text e m) (filter_text m) (view_width m) of
        Inl p \<Rightarrow> Inl p
      | Inr location \<Rightarrow> Inr (renderBar e location @ renderSearch e (filter_text m)))"

definition newline :: string where
  "newline = [CHR 0x0A]"

definition View :: "env \<Rightarrow> model \<Rightarrow> panic + model \<times> string" where
  "View e m =
     (case View_layout m of
        Inl p \<Rightarrow> Inl p
      | Inr (m1, names) \<Rightarrow>
          (case View_output e m1 names of
             Inl p \<Rightarrow> Inl p
           | Inr output \<Rightarrow>
               (case View_bar e m1 of
                  Inl p \<Rightarrow> Inl p
                | Inr bar \<Rightarrow>
                    if files m1 = [] then Inr (m1, bar @ newline @ renderWarning e ''No files'')
                    else if previewMode m1 then
                      Inr (m1, joinHorizontal e (bar @ newline @ Join output newline)
                                 (renderPreview e (height m1) (previewContent m1)))
                    else Inr (m1, bar @ newline @ Join output newline))))"

subsection \<open>Update\<close>

definition finish :: "model \<Rightarrow> panic + model \<times> cmd" where
  "finish m =
     (let m1 = saveCursorPosition (updateOffset m)
      in Inr (m1, if previewMode m1 then PreviewCmd else NoCmd))"

definition restore_position :: "model \<Rightarrow> position \<Rightarrow> model" where
  "restore_position m p =
     m\<lparr>c := position_c p, r := position_r p, offset := position_offset p\<rparr>"

definition update_WindowSize :: "int \<Rightarrow> int \<Rightarrow> model \<Rightarrow> panic + model \<times> cmd" where
  "update_WindowSize w h m =
     (let m1 = m\<lparr>width := w, height := h, positions := []\<rparr>
      in case fileName m1 of
           Inl p \<Rightarrow> Inl p
         | Inr (fname, ok) \<Rightarrow>
             (let m2 = (if ok then m1\<lparr>prevName := fname, findPrevName := True\<rparr> else m1)
              in Inr (m2\<lparr>c := 0, r := 0\<rparr>, NoCmd)))"

definition search_tick :: "model \<Rightarrow> panic + model \<times> cmd" where
  "search_tick m =
     (let m1 = saveCursorPosition (updateOffset m)
      in Inr (m1, Tick (searchId m1)))"

definition search_runes :: "env \<Rightarrow> key \<Rightarrow> model \<Rightarrow> panic + model \<times> cmd" where
  "search_runes e k m =
     (let m1 = m\<lparr>search := search m @ runes k\<rparr>;
          matches = fuzzyFind e (search m1) (map name (files m1))
      in case matches of
           [] \<Rightarrow> search_tick m1
         | best # rest \<Rightarrow>
             if rows m1 = 0 then Inl DivideByZero
             else search_tick
                    (m1\<lparr>matchedIndexes := MatchedIndexes best,
                        c := go_quo (Index best) (rows m1),
                        r := go_rem (Index best) (rows m1)\<rparr>))"

definition key_open :: "env \<Rightarrow> model \<Rightarrow> panic + model \<times> cmd" where
  "key_open e m =
     (let m1 = m\<lparr>searchMode := False\<rparr>
      in case filePath m1 of
           Inl p \<Rightarrow> Inl p
         | Inr (fpath, ok) \<Rightarrow>
             if \<not> ok then Inr (m1, NoCmd)
             else (case statIsDir e fpath of
                     None \<Rightarrow> Inl StatFailed
                   | Some True \<Rightarrow>
                       (let m2 = m1\<lparr>path := fpath\<rparr>;
                            m3 = (case map_of (positions m2) (path m2) of
                                    Some p \<Rightarrow> restore_position m2 p
                                  | None \<Rightarrow> m2\<lparr>c := 0, r := 0, offset := 0\<rparr>)
                        in case list e m3 of
                             Inl p \<Rightarrow> Inl p
                           | Inr m4 \<Rightarrow> finish m4)
                   | Some False \<Rightarrow>
                       (case openEditor m1 of
                          Inl p \<Rightarrow> Inl p
                        | Inr cmd \<Rightarrow> Inr (m1, cmd))))"

definition key_back :: "env \<Rightarrow> model \<Rightarrow> panic + model \<times> cmd" where
  "key_back e m =
     (let m1 = m\<lparr>searchMode := False\<rparr>;
          m2 = m1\<lparr>prevName := path_Base (path m1)\<rparr>;
          m3 = m2\<lparr>path := path_Up (path m2)\<rparr>;
          m4 = (case map_of (positions m3) (path m3) of
                  Some p \<Rightarrow> restore_position m3 p
                | None \<Rightarrow> m3\<lparr>findPrevName := True\<rparr>)
      in case list e m4 of
           Inl p \<Rightarrow> Inl p
         | Inr m5 \<Rightarrow> Inr (m5, if previewMode m5 then PreviewCmd else NoCmd))"

definition key_preview :: "model \<Rightarrow> panic + model \<times> cmd" where
  "key_preview m =
     (let m1 = m\<lparr>previewMode := \<not> previewMode m, positions := []\<rparr>
      in case fileName m1 of
           Inl p \<Rightarrow> Inl p
         | Inr (fname, ok) \<Rightarrow>
             if \<not> ok then Inr (m1, NoCmd)
             else (let m2 = m1\<lparr>prevName := fname, findPrevName := True\<rparr>
                   in if previewMode m2 then Inr (m2, EnterAltScreenThenPreview)
                      else Inr (m2\<lparr>previewContent := []\<rparr>, ExitAltScreen)))"

definition key_switch :: "env \<Rightarrow> key \<Rightarrow> model \<Rightarrow> panic + model \<times> cmd" where
  "key_switch e k m =
     (if key_Matches k keyForceQuit then Inr (m\<lparr>exitCode := 2\<rparr>, Quit None)
      else if key_Matches k keyQuit then Inr (m\<lparr>exitCode := 0\<rparr>, Quit (Some (path m)))
      else if key_Matches k keyOpen then key_open e m
      else if key_Matches k keyBack then key_back e m
      else if key_Matches k keyUp then finish (moveUp m)
      else if key_Matches k (keyTop @ keyVimTop) then finish (moveTop m)
      else if key_Matches k (keyBottom @ keyVimBottom) then finish (moveBottom m)
      else if key_Matches k keyLeftmost then finish (moveLeftmost m)
      else if key_Matches k keyRightmost then finish (moveRightmost m)
      else if key_Matches k keyVimUp then finish (if \<not> searchMode m then moveUp m else m)
      else if key_Matches k keyDown then finish (moveDown m)
      else if key_Matches k keyVimDown then finish (if \<not> searchMode m then moveDown m else m)
      else if key_Matches k keyLeft then finish (moveLeft m)
      else if key_Matches k keyVimLeft then finish (if \<not> searchMode m then moveLeft m else m)
      else if key_Matches k keyRight then finish (moveRight m)
      else if key_Matches k keyVimRight then finish (if \<not> searchMode m then moveRight m else m)
      else if key_Matches k keySearch
        then finish (m\<lparr>searchMode := True, searchId := searchId m + 1, search := []\<rparr>)
      else if key_Matches k keyPreview then key_preview m
      else finish m)"

definition update_Key :: "env \<Rightarrow> key \<Rightarrow> model \<Rightarrow> panic + model \<times> cmd" where
  "update_Key e k m =
     (if searchMode m then
        (if key_Matches k keySearch then Inr (m\<lparr>searchMode := False\<rparr>, NoCmd)
         else if key_Matches k keyBack then
           (if length (search m) > 0 then Inr (m\<lparr>search := butlast (search m)\<rparr>, NoCmd)
            else key_switch e k m)
         else if isRunes k then search_runes e k m
         else key_switch e k m)
      else key_switch e k m)"

definition update_Preview :: "env \<Rightarrow> string \<Rightarrow> model \<Rightarrow> model" where
  "update_Preview e fpath m =
     (case openAndRead e fpath of
        Inl err \<Rightarrow> m\<lparr>previewContent := err\<rparr>
      | Inr content \<Rightarrow>
          if utf8Valid e content
          then m\<lparr>previewContent := ReplaceAllChar content tab ''    ''\<rparr>
          else m\<lparr>previewContent := renderWarning e ''No preview available''\<rparr>)"

fun Update :: "env \<Rightarrow> msg \<Rightarrow> model \<Rightarrow> panic + model \<times> cmd" where
  "Update e (WindowSizeMsg w h) m = update_WindowSize w h m"
| "Update e (KeyMsg k) m = update_Key e k m"
| "Update e (ClearSearchMsg tag) m =
     Inr (if searchId m = tag then m\<lparr>searchMode := False\<rparr> else m, NoCmd)"
| "Update e (PreviewMsg fpath) m = Inr (update_Preview e fpath m, NoCmd)"
| "Update e OtherMsg m = Inr (m, NoCmd)"

text \<open>Running the preview command and delivering its message; \<^verbatim>\<open>nil\<close> is not
  delivered.\<close>

definition run_previewCmd :: "env \<Rightarrow> model \<Rightarrow> panic + model \<times> cmd" where
  "run_previewCmd e m =
     (case previewCmd m of
        Inl p \<Rightarrow> Inl p
      | Inr None \<Rightarrow> Inr (m, NoCmd)
      | Inr (Some message) \<Rightarrow> Update e message m)"

subsection \<open>Well-formed grids and cursors\<close>

text \<open>A grid whose last column holds at least one entry, and a cursor on an entry.\<close>

definition grid_ok :: "model \<Rightarrow> bool" where
  "grid_ok m =
     (1 \<le> columns m \<and> 1 \<le> rows m \<and>
      (columns m - 1) * rows m < int (length (files m)) \<and>
      int (length (files m)) \<le> columns m * rows m)"

definition cursor_ok :: "model \<Rightarrow> bool" where
  "cursor_ok m =
     (0 \<le> c m \<and> c m < columns m \<and> 0 \<le> r m \<and> r m < rows m \<and>
      linear_index m < int (length (files m)))"

subsection \<open>The event loop\<close>

text \<open>
  The runtime lists the start directory, renders once, and then renders after every
  \<^verbatim>\<open>Update\<close>; \<^verbatim>\<open>View\<close> writes the layout back into the model, so the next
  \<^verbatim>\<open>Update\<close> sees the grid of the last rendering. The commands returned by
  \<^verbatim>\<open>Update\<close> are not run here.
\<close>

definition start :: "env \<Rightarrow> string \<Rightarrow> panic + model" where
  "start e startPath =
     (case list e \<lparr>path = startPath, files = [], c = 0, r = 0, columns = 0, rows = 0,
              width = 80, height = 60, offset = 0, positions = [], search = [],
              searchMode = False, searchId = 0, matchedIndexes = [], prevName = [],
              findPrevName = False, exitCode = 0, previewMode = False,
              previewContent = []\<rparr> of
        Inl p \<Rightarrow> Inl p
      | Inr m \<Rightarrow>
          (case View e m of
             Inl p \<Rightarrow> Inl p
           | Inr (m1, text) \<Rightarrow> Inr m1))"

definition step :: "env \<Rightarrow> msg \<Rightarrow> model \<Rightarrow> panic + model" where
  "step e message m =
     (case Update e message m of
        Inl p \<Rightarrow> Inl p
      | Inr (m1, command) \<Rightarrow>
          (case View e m1 of
             Inl p \<Rightarrow> Inl p
           | Inr (m2, text) \<Rightarrow> Inr m2))"

fun event_loop :: "env \<Rightarrow> msg list \<Rightarrow> model \<Rightarrow> panic + model" where
  "event_loop e [] m = Inr m"
| "event_loop e (message # rest) m =
     (case step e message m of
        Inl p \<Rightarrow> Inl p
      | Inr m1 \<Rightarrow> event_loop e rest m1)"

definition session :: "env \<Rightarrow> string \<Rightarrow> msg list \<Rightarrow> panic + model" where
  "session e startPath messages =
     (case start e startPath of
        Inl p \<Rightarrow> Inl p
      | Inr m \<Rightarrow> event_loop e messages m)"

subsection \<open>The preview text, in the words of the specification\<close>

text \<open>Every tab character is replaced by four spaces.\<close>

fun expand_tabs :: "string \<Rightarrow> string" where
  "expand_tabs [] = []"
| "expand_tabs (x # xs) =
     (if x = CHR 0x09 then ''    '' @ expand_tabs xs else x # expand_tabs xs)"

subsection \<open>Concrete directories, keys and states\<close>

text \<open>
  A small matcher with the interface of \<^verbatim>\<open>fuzzy.Find\<close>, for the concrete runs
  below: the candidates that contain the pattern as a subsequence, in candidate order,
  with the positions of the leftmost match; no match for the empty pattern.
\<close>

fun match_positions :: "string \<Rightarrow> string \<Rightarrow> int \<Rightarrow> int list option" where
  "match_positions [] s i = Some []"
| "match_positions (p # ps) [] i = None"
| "match_positions (p # ps) (x # xs) i =
     (if p = x then map_option ((#) i) (match_positions ps xs (i + 1))
      else match_positions (p # ps) xs (i + 1))"

definition subsequence_find :: "string \<Rightarrow> string list \<Rightarrow> fmatch list" where
  "subsequence_find pattern names =
     (if pattern = [] then []
      else List.map_filter
             (\<lambda>(i, s). map_option (\<lambda>ps. \<lparr>Index = int i, MatchedIndexes = ps\<rparr>)
                          (match_positions pattern s 0))
             (enumerate 0 names))"

definition plain_file :: "string \<Rightarrow> entry" where
  "plain_file s = \<lparr>name = s, isDir = False\<rparr>"

definition directory :: "string \<Rightarrow> entry" where
  "directory s = \<lparr>name = s, isDir = True\<rparr>"

text \<open>One file per character, named by that character.\<close>

definition letter_files :: "string \<Rightarrow> entry list" where
  "letter_files s = map (\<lambda>x. plain_file [x]) s"

text \<open>A file system with five directories: \<^verbatim>\<open>/p\<close> (a subdirectory \<^verbatim>\<open>a\<close> and
  three files), \<^verbatim>\<open>/p/a\<close> (five files), \<^verbatim>\<open>/five\<close>, \<^verbatim>\<open>/seven\<close> and
  \<^verbatim>\<open>/x\<close> (five, seven and two files); the styling functions leave the text as
  it is.\<close>

definition example_env :: env where
  "example_env =
     \<lparr>readDir = (\<lambda>p.
          if p = ''/p'' then
            Some [directory ''a'', plain_file ''b'', plain_file ''c'', plain_file ''d'']
          else if p = ''/p/a'' then
            Some (letter_files ''klmno'')
          else if p = ''/five'' then
            Some (letter_files ''abcde'')
          else if p = ''/seven'' then
            Some (letter_files ''abcdefg'')
          else if p = ''/x'' then
            Some [plain_file ''xa'', plain_file ''xb'']
          else None),
      statIsDir = (\<lambda>p. if p = ''/p/a'' then Some True
                        else if p = ''/p/b'' \<or> p = ''/p/c'' \<or> p = ''/p/d'' then Some False
                        else None),
      openAndRead = (\<lambda>p. Inl ''open: no such file or directory''),
      utf8Valid = (\<lambda>s. True),
      fuzzyFind = subsequence_find,
      userHomeDir = None,
      renderWarning = (\<lambda>s. s),
      renderCursor = (\<lambda>s. s),
      renderBar = (\<lambda>s. s),
      renderSearch = (\<lambda>s. s),
      renderPreview = (\<lambda>h s. s),
      joinHorizontal = (\<lambda>a b. a @ b)\<rparr>"

text \<open>A special key (an arrow, Enter, Backspace) and a typed character.\<close>

definition pressed :: "string \<Rightarrow> msg" where
  "pressed s = KeyMsg \<lparr>keyString = s, isRunes = False, runes = []\<rparr>"

definition typed :: "string \<Rightarrow> msg" where
  "typed s = KeyMsg \<lparr>keyString = s, isRunes = True, runes = s\<rparr>"

text \<open>\<^verbatim>\<open>/seven\<close> on an 80 x 8 terminal: three columns of three rows, the last
  column holding one entry; the cursor on the first entry.\<close>

definition seven_model :: model where
  "seven_model =
     \<lparr>path = ''/seven'',
      files = letter_files ''abcdefg'',
      c = 0, r = 0, columns = 3, rows = 3, width = 80, height = 8, offset = 0,
      positions = [(''/seven'', \<lparr>position_c = 0, position_r = 0, position_offset = 0\<rparr>)],
      search = [], searchMode = False, searchId = 0, matchedIndexes = [],
      prevName = ''a'', findPrevName = False, exitCode = 0, previewMode = False,
      previewContent = []\<rparr>"

text \<open>\<^verbatim>\<open>/five\<close> on a 20 x 4 terminal: five columns do not fit, so the layout has
  four columns of two rows and its last column is empty; the cursor on the last entry.\<close>

definition five_model :: model where
  "five_model =
     \<lparr>path = ''/five'',
      files = letter_files ''abcde'',
      c = 2, r = 0, columns = 4, rows = 2, width = 20, height = 4, offset = 0,
      positions = [(''/five'', \<lparr>position_c = 2, position_r = 0, position_offset = 0\<rparr>)],
      search = [], searchMode = False, searchId = 0, matchedIndexes = [],
      prevName = ''a'', findPrevName = False, exitCode = 0, previewMode = False,
      previewContent = []\<rparr>"

text \<open>The same grid after Down and the search key: the cursor is on the empty cell
  below the last entry, and search mode is active.\<close>

definition stray_model :: model where
  "stray_model =
     five_model\<lparr>r := 1,
       positions := [(''/five'', \<lparr>position_c = 2, position_r = 1, position_offset = 0\<rparr>)],
       searchMode := True, searchId := 1\<rparr>"

text \<open>\<^verbatim>\<open>/seven\<close> with search mode just activated.\<close>

definition seven_search_model :: model where
  "seven_search_model = seven_model\<lparr>searchMode := True, searchId := 1\<rparr>"

text \<open>\<^verbatim>\<open>/x\<close> on the default 80 x 60 terminal after the search key and the
  characters \<^verbatim>\<open>x\<close> and \<^verbatim>\<open>b\<close>: the cursor is on \<^verbatim>\<open>xb\<close>.\<close>

definition x_search_model :: model where
  "x_search_model =
     \<lparr>path = ''/x'', files = [plain_file ''xa'', plain_file ''xb''],
      c = 0, r = 1, columns = 1, rows = 2, width = 80, height = 60, offset = 0,
      positions = [(''/x'', \<lparr>position_c = 0, position_r = 1, position_offset = 0\<rparr>)],
      search = ''xb'', searchMode = True, searchId = 1, matchedIndexes = [0, 1],
      prevName = [], findPrevName = False, exitCode = 0, previewMode = False,
      previewContent = []\<rparr>"

text \<open>\<^verbatim>\<open>/p\<close> on a 5 x 4 terminal with the query \<^verbatim>\<open>abcde\<close> typed: the filter
  text is longer than the display is wide.\<close>

definition narrow_search_model :: model where
  "narrow_search_model =
     \<lparr>path = ''/p'',
      files = [directory ''a'', plain_file ''b'', plain_file ''c'', plain_file ''d''],
      c = 0, r = 0, columns = 1, rows = 4, width = 5, height = 4, offset = 0,
      positions = [(''/p'', \<lparr>position_c = 0, position_r = 0, position_offset = 0\<rparr>)],
      search = ''abcde'', searchMode = True, searchId = 1, matchedIndexes = [],
      prevName = ''a'', findPrevName = False, exitCode = 0, previewMode = False,
      previewContent = []\<rparr>"

text \<open>\<^verbatim>\<open>/p/a\<close> on the 5 x 4 terminal, entered from \<^verbatim>\<open>/p\<close>, with the cursor
  moved to the last of its five rows: the list shows three rows, from row 2 on.\<close>

definition inside_a_model :: model where
  "inside_a_model =
     \<lparr>path = ''/p/a'', files = letter_files ''klmno'',
      c = 0, r = 4, columns = 1, rows = 5, width = 5, height = 4, offset = 2,
      positions =
        [(''/p'', \<lparr>position_c = 0, position_r = 0, position_offset = 0\<rparr>),
         (''/p/a'', \<lparr>position_c = 0, position_r = 4, position_offset = 2\<rparr>)],
      search = [], searchMode = False, searchId = 0, matchedIndexes = [],
      prevName = ''a'', findPrevName = False, exitCode = 0, previewMode = False,
      previewContent = []\<rparr>"

text \<open>A directory of 71 files with names of two letters on a standard 80 x 24
  terminal: ten columns of eight rows, of which the last is empty and the one before it
  holds seven entries; the cursor on the last entry.\<close>

definition two_letter_files :: "nat \<Rightarrow> entry list" where
  "two_letter_files n =
     take n (concat (map (\<lambda>x. map (\<lambda>y. plain_file [x, y]) ''abcdefghijklmnopqrstuvwxyz'')
                      ''abc''))"

definition wide_model :: model where
  "wide_model =
     \<lparr>path = ''/wide'', files = two_letter_files 71,
      c = 8, r = 6, columns = 10, rows = 8, width = 80, height = 24, offset = 0,
      positions = [(''/wide'', \<lparr>position_c = 8, position_r = 6, position_offset = 0\<rparr>)],
      search = [], searchMode = False, searchId = 0, matchedIndexes = [],
      prevName = ''aa'', findPrevName = False, exitCode = 0, previewMode = False,
      previewContent = []\<rparr>"

section \<open>Properties\<close>

subsection \<open>Scrolling and saving leave the rest of the model alone\<close>

lemma updateOffset_frame:
  "c (updateOffset m) = c m" "r (updateOffset m) = r m" "path (updateOffset m) = path m"
  "files (updateOffset m) = files m" "rows (updateOffset m) = rows m"
  "columns (updateOffset m) = columns m" "positions (updateOffset m) = positions m"
  "previewMode (updateOffset m) = previewMode m"
  by (simp_all add: updateOffset_def Let_def)

lemma saveCursorPosition_frame:
  "c (saveCursorPosition m) = c m" "r (saveCursorPosition m) = r m"
  "offset (saveCursorPosition m) = offset m" "path (saveCursorPosition m) = path m"
  "files (saveCursorPosition m) = files m" "rows (saveCursorPosition m) = rows m"
  "columns (saveCursorPosition m) = columns m"
  by (simp_all add: saveCursorPosition_def)

lemma finish_result:
  "finish m = Inr (saveCursorPosition (updateOffset m),
                   if previewMode m then PreviewCmd else NoCmd)"
  by (simp add: finish_def Let_def saveCursorPosition_def updateOffset_frame)

subsection \<open>Cursor movement\<close>

lemma moveDown_frame:
  "moveDown m = m\<lparr>c := c (moveDown m), r := r (moveDown m)\<rparr>"
  by (simp add: moveDown_def Let_def past_last_def)

lemma next_column_start:
  fixes C R N cc :: int
  assumes "1 \<le> R" "(C - 1) * R < N" "0 \<le> cc" "cc < C - 1"
  shows "(cc + 1) * R < N"
proof -
  have "cc + 1 \<le> C - 1" using assms by simp
  then have "(cc + 1) * R \<le> (C - 1) * R"
    using assms(1) by (intro mult_right_mono) simp_all
  then show ?thesis using assms(2) by linarith
qed

lemma down_arith:
  fixes C R N cc rr :: int
  assumes "1 \<le> C" "1 \<le> R" "(C - 1) * R < N" "N \<le> C * R"
    and "0 \<le> cc" "cc < C" "0 \<le> rr" "rr < R" "cc * R + rr < N"
  defines "rr2 \<equiv> (if rr + 1 \<ge> R then 0 else rr + 1)"
    and "cc2 \<equiv> (if rr + 1 \<ge> R then cc + 1 else cc)"
  defines "cc3 \<equiv> (if cc2 \<ge> C then 0 else cc2)"
  defines "snap \<equiv> (cc3 = C - 1 \<and> (C - 1) * R + rr2 \<ge> N)"
  defines "cc4 \<equiv> (if snap then 0 else cc3)" and "rr4 \<equiv> (if snap then 0 else rr2)"
  shows "0 \<le> cc4 \<and> cc4 < C \<and> 0 \<le> rr4 \<and> rr4 < R \<and> cc4 * R + rr4 < N \<and>
         cc4 * R + rr4 = (cc * R + rr + 1) mod N"
proof -
  have "0 \<le> cc * R" using assms(2,5) by simp
  then have Npos: "0 < N" using assms(7,9) by linarith
  consider (a1) "rr + 1 < R" "cc = C - 1" "(C - 1) * R + rr + 1 \<ge> N"
    | (a2) "rr + 1 < R" "cc = C - 1" "(C - 1) * R + rr + 1 < N"
    | (a3) "rr + 1 < R" "cc < C - 1"
    | (b1) "rr + 1 = R" "cc = C - 1"
    | (b2) "rr + 1 = R" "cc < C - 1"
    using assms(6,8) by linarith
  then show ?thesis
  proof cases
    case a1
    then have s: "snap" by (simp add: snap_def cc3_def cc2_def rr2_def)
    have "cc * R + rr + 1 = N" using a1 assms(9) by simp
    then show ?thesis using s Npos assms(1,2) by (simp add: cc4_def rr4_def)
  next
    case a2
    then have s: "\<not> snap" by (simp add: snap_def cc3_def cc2_def rr2_def)
    have "cc4 = cc" "rr4 = rr + 1" using s a2 assms(6) by (simp_all add: cc4_def rr4_def cc3_def cc2_def rr2_def)
    then show ?thesis using a2 assms by simp
  next
    case a3
    then have s: "\<not> snap" by (simp add: snap_def cc3_def cc2_def rr2_def)
    have v: "cc4 = cc" "rr4 = rr + 1" using s a3 assms(6) by (simp_all add: cc4_def rr4_def cc3_def cc2_def rr2_def)
    have "(cc + 1) * R < N" using next_column_start[OF assms(2,3,5) a3(2)] .
    then have "cc * R + rr + 1 < N" using a3(1) by (simp add: algebra_simps)
    then show ?thesis using v a3 assms by simp
  next
    case b1
    have e: "cc * R + rr + 1 = C * R"
    proof -
      have "C = cc + 1" using b1(2) by simp
      then show ?thesis using b1(1) by (simp add: algebra_simps)
    qed
    then have n: "N = cc * R + rr + 1" using assms(4,9) by linarith
    have "cc4 = 0 \<and> rr4 = 0" using b1 Npos
      by (auto simp add: cc4_def rr4_def snap_def cc3_def cc2_def rr2_def)
    then show ?thesis using n Npos assms(1,2) by simp
  next
    case b2
    have lt: "(cc + 1) * R < N" using next_column_start[OF assms(2,3,5) b2(2)] .
    have c3: "cc3 = cc + 1" "rr2 = 0" using b2 by (simp_all add: cc3_def cc2_def rr2_def)
    have s: "\<not> snap" using assms(3) by (simp add: snap_def c3)
    have v: "cc4 = cc + 1" "rr4 = 0" using s c3 by (simp_all add: cc4_def rr4_def)
    have e: "cc * R + rr + 1 = (cc + 1) * R" using b2 by (simp add: algebra_simps)
    show ?thesis using v lt e b2 assms by simp
  qed
qed


lemma moveDown_cursor:
  assumes g: "grid_ok m" and v: "cursor_ok m"
  shows "cursor_ok (moveDown m) \<and>
         linear_index (moveDown m) = (linear_index m + 1) mod int (length (files m))"
proof -
  have g': "1 \<le> columns m" "1 \<le> rows m" "(columns m - 1) * rows m < int (length (files m))"
    "int (length (files m)) \<le> columns m * rows m"
    using g unfolding grid_ok_def by blast+
  have v': "0 \<le> c m" "c m < columns m" "0 \<le> r m" "r m < rows m"
    "c m * rows m + r m < int (length (files m))"
    using v unfolding cursor_ok_def linear_index_def by blast+
  show ?thesis
    using down_arith[OF g' v'] g' v'
    unfolding cursor_ok_def linear_index_def moveDown_def Let_def past_last_def
    by (auto split: if_splits)
qed

lemma moveDown_grid: "grid_ok (moveDown m) = grid_ok m"
  by (simp add: grid_ok_def moveDown_def Let_def past_last_def)

lemma moveDown_files: "files (moveDown m) = files m" "rows (moveDown m) = rows m"
  by (simp_all add: moveDown_def Let_def past_last_def)

lemma cursor_from_index:
  assumes "cursor_ok m"
  shows "c m = linear_index m div rows m" "r m = linear_index m mod rows m"
  using assms unfolding cursor_ok_def linear_index_def by simp_all

lemma moveDown_iterate:
  assumes g: "grid_ok m" and v: "cursor_ok m"
  shows "grid_ok ((moveDown ^^ k) m) \<and> cursor_ok ((moveDown ^^ k) m) \<and>
         files ((moveDown ^^ k) m) = files m \<and> rows ((moveDown ^^ k) m) = rows m \<and>
         (moveDown ^^ k) m = m\<lparr>c := c ((moveDown ^^ k) m), r := r ((moveDown ^^ k) m)\<rparr> \<and>
         linear_index ((moveDown ^^ k) m) = (linear_index m + int k) mod int (length (files m))"
proof (induction k)
  case 0
  have "0 \<le> linear_index m" "linear_index m < int (length (files m))"
    using v unfolding cursor_ok_def linear_index_def by simp_all
  then show ?case using g v by simp
next
  case (Suc k)
  let ?p = "(moveDown ^^ k) m"
  from Suc have ih: "grid_ok ?p" "cursor_ok ?p" "files ?p = files m" "rows ?p = rows m"
    "?p = m\<lparr>c := c ?p, r := r ?p\<rparr>"
    "linear_index ?p = (linear_index m + int k) mod int (length (files m))"
    by blast+
  have step: "cursor_ok (moveDown ?p)"
    "linear_index (moveDown ?p) = (linear_index ?p + 1) mod int (length (files ?p))"
    using moveDown_cursor[OF ih(1,2)] by blast+
  have idx: "linear_index (moveDown ?p) = (linear_index m + int (Suc k)) mod int (length (files m))"
    using step(2) ih(3,6) by (simp add: mod_simps algebra_simps)
  have frame: "moveDown ?p = m\<lparr>c := c (moveDown ?p), r := r (moveDown ?p)\<rparr>"
  proof -
    have "moveDown ?p = ?p\<lparr>c := c (moveDown ?p), r := r (moveDown ?p)\<rparr>"
      by (rule moveDown_frame)
    also have "\<dots> = (m\<lparr>c := c ?p, r := r ?p\<rparr>)\<lparr>c := c (moveDown ?p), r := r (moveDown ?p)\<rparr>"
      using ih(5) by simp
    finally show ?thesis by simp
  qed
  show ?case
    using step(1) idx frame ih(1,3,4) by (simp add: moveDown_grid moveDown_files)
qed

lemma full_column:
  fixes C R N cc rr :: int
  assumes "1 \<le> R" "(C - 1) * R < N" "0 \<le> cc" "cc < C - 1" "rr < R"
  shows "cc * R + rr < N"
proof -
  have "(cc + 1) * R < N" using next_column_start[OF assms(1-4)] .
  then show ?thesis using assms(5) by (simp add: algebra_simps)
qed

lemma last_cell:
  fixes C R N :: int
  assumes "(C - 1) * R < N" "N \<le> C * R"
  shows "0 \<le> R - 1 - (C * R - N)" "R - 1 - (C * R - N) < R"
    "(C - 1) * R + (R - 1 - (C * R - N)) = N - 1"
  using assms by (simp_all add: algebra_simps)

lemma grid_cursor_facts:
  assumes g: "grid_ok m" and v: "cursor_ok m"
  shows "1 \<le> columns m" "1 \<le> rows m" "(columns m - 1) * rows m < int (length (files m))"
    "int (length (files m)) \<le> columns m * rows m"
    "0 \<le> c m" "c m < columns m" "0 \<le> r m" "r m < rows m"
    "c m * rows m + r m < int (length (files m))"
  using g v unfolding grid_ok_def cursor_ok_def linear_index_def by blast+

lemma cursor_okI:
  assumes "0 \<le> c m'" "c m' < columns m'" "0 \<le> r m'" "r m' < rows m'"
    "c m' * rows m' + r m' < int (length (files m'))"
  shows "cursor_ok m'"
  using assms unfolding cursor_ok_def linear_index_def by simp

lemma moveUp_cursor:
  assumes g: "grid_ok m" and v: "cursor_ok m"
  shows "cursor_ok (moveUp m)"
proof -
  note f = grid_cursor_facts[OF g v]
  note l = last_cell[OF f(3,4)]
  consider (a) "0 < r m" | (b) "r m = 0" "0 < c m" | (c) "r m = 0" "c m = 0"
    using f(5,7) by linarith
  then show ?thesis
  proof cases
    case a
    have "c m * rows m + (r m - 1) < int (length (files m))" using f(9) by simp
    then show ?thesis using a f
      by (intro cursor_okI) (simp_all add: moveUp_def Let_def last_row_def)
  next
    case b
    have "(c m - 1) * rows m + (rows m - 1) < int (length (files m))"
      using full_column[OF f(2,3), of "c m - 1" "rows m - 1"] b f(6) by simp
    then show ?thesis using b f
      by (intro cursor_okI) (simp_all add: moveUp_def Let_def last_row_def)
  next
    case c
    show ?thesis using c f l
      by (intro cursor_okI) (simp_all add: moveUp_def Let_def last_row_def)
  qed
qed

lemma moveLeft_cursor:
  assumes g: "grid_ok m" and v: "cursor_ok m"
  shows "cursor_ok (moveLeft m)"
proof -
  note f = grid_cursor_facts[OF g v]
  note l = last_cell[OF f(3,4)]
  consider (a) "0 < c m" | (b) "c m = 0" "(columns m - 1) * rows m + r m \<ge> int (length (files m))"
    | (c) "c m = 0" "(columns m - 1) * rows m + r m < int (length (files m))"
    using f(5) by linarith
  then show ?thesis
  proof cases
    case a
    have "(c m - 1) * rows m + r m < int (length (files m))"
      using full_column[OF f(2,3), of "c m - 1" "r m"] a f(6,8) by simp
    then show ?thesis using a f
      by (intro cursor_okI) (simp_all add: moveLeft_def Let_def last_row_def past_last_def)
  next
    case b
    show ?thesis using b f l
      by (intro cursor_okI) (simp_all add: moveLeft_def Let_def last_row_def past_last_def)
  next
    case c
    show ?thesis using c f l
      by (intro cursor_okI) (simp_all add: moveLeft_def Let_def last_row_def past_last_def)
  qed
qed

lemma moveRight_cursor:
  assumes g: "grid_ok m" and v: "cursor_ok m"
  shows "cursor_ok (moveRight m)"
proof -
  note f = grid_cursor_facts[OF g v]
  note l = last_cell[OF f(3,4)]
  consider (a) "c m + 1 < columns m - 1"
    | (b) "c m + 1 = columns m - 1" "(columns m - 1) * rows m + r m \<ge> int (length (files m))"
    | (c) "c m + 1 = columns m - 1" "(columns m - 1) * rows m + r m < int (length (files m))"
    | (d) "c m + 1 = columns m"
    using f(6) by linarith
  then show ?thesis
  proof cases
    case a
    have "(c m + 1) * rows m + r m < int (length (files m))"
      using full_column[OF f(2,3), of "c m + 1" "r m"] a f(5,8) by simp
    then show ?thesis using a f
      by (intro cursor_okI) (simp_all add: moveRight_def Let_def last_row_def past_last_def)
  next
    case b
    show ?thesis using b f l
      by (intro cursor_okI) (simp_all add: moveRight_def Let_def last_row_def past_last_def)
  next
    case c
    have cv: "c (moveRight m) = columns m - 1" "r (moveRight m) = r m"
      "columns (moveRight m) = columns m" "rows (moveRight m) = rows m"
      "files (moveRight m) = files m"
      using c f by (simp_all add: moveRight_def Let_def past_last_def)
    have "1 \<le> columns m - 1" using c(1) f(5) by linarith
    then show ?thesis unfolding cursor_ok_def linear_index_def cv using c(2) f(7,8) by simp
  next
    case d
    have "0 \<le> c m * rows m" using f(2,5) by simp
    then have r0: "r m < int (length (files m))" using f(9) by linarith
    show ?thesis using d f l r0
      by (intro cursor_okI) (auto simp add: moveRight_def Let_def last_row_def past_last_def)
  qed
qed

lemma moveTop_cursor:
  assumes g: "grid_ok m" and v: "cursor_ok m"
  shows "cursor_ok (moveTop m)"
proof -
  note f = grid_cursor_facts[OF g v]
  consider (a) "c m < columns m - 1" | (b) "c m = columns m - 1" using f(6) by linarith
  then show ?thesis
  proof cases
    case a
    have "c m * rows m + 0 < int (length (files m))"
      using full_column[OF f(2,3,5) a, of 0] f(2) by simp
    then show ?thesis using f by (intro cursor_okI) (simp_all add: moveTop_def)
  next
    case b
    have "c m * rows m < int (length (files m))" unfolding b using f(3) .
    then show ?thesis using f by (intro cursor_okI) (simp_all add: moveTop_def)
  qed
qed

lemma moveBottom_cursor:
  assumes g: "grid_ok m" and v: "cursor_ok m"
  shows "cursor_ok (moveBottom m)"
proof -
  note f = grid_cursor_facts[OF g v]
  note l = last_cell[OF f(3,4)]
  consider (a) "c m < columns m - 1"
    | (b) "c m = columns m - 1" "(columns m - 1) * rows m + (rows m - 1) \<ge> int (length (files m))"
    | (c) "c m = columns m - 1" "(columns m - 1) * rows m + (rows m - 1) < int (length (files m))"
    using f(6) by linarith
  then show ?thesis
  proof cases
    case a
    have "c m * rows m + (rows m - 1) < int (length (files m))"
      using full_column[OF f(2,3,5) a, of "rows m - 1"] by simp
    then show ?thesis using a f
      by (intro cursor_okI) (simp_all add: moveBottom_def Let_def past_last_def)
  next
    case b
    have cv: "c (moveBottom m) = columns m - 1" "r (moveBottom m) = last_row m"
      "columns (moveBottom m) = columns m" "rows (moveBottom m) = rows m"
      "files (moveBottom m) = files m"
      using b by (simp_all add: moveBottom_def Let_def past_last_def last_row_def)
    show ?thesis unfolding cursor_ok_def linear_index_def cv last_row_def
      using l f(1) by simp
  next
    case c
    have cv: "c (moveBottom m) = columns m - 1" "r (moveBottom m) = rows m - 1"
      "columns (moveBottom m) = columns m" "rows (moveBottom m) = rows m"
      "files (moveBottom m) = files m"
      using c by (simp_all add: moveBottom_def Let_def past_last_def)
    show ?thesis unfolding cursor_ok_def linear_index_def cv
      using c(2) f(1,2) by simp
  qed
qed

lemma moveLeftmost_cursor:
  assumes g: "grid_ok m" and v: "cursor_ok m"
  shows "cursor_ok (moveLeftmost m)"
proof -
  note f = grid_cursor_facts[OF g v]
  have "0 \<le> c m * rows m" using f(2,5) by simp
  then have "0 * rows m + r m < int (length (files m))" using f(9) by simp
  then show ?thesis using f by (intro cursor_okI) (simp_all add: moveLeftmost_def)
qed

lemma moveRightmost_cursor:
  assumes g: "grid_ok m" and v: "cursor_ok m"
  shows "cursor_ok (moveRightmost m)"
proof -
  note f = grid_cursor_facts[OF g v]
  note l = last_cell[OF f(3,4)]
  consider (b) "(columns m - 1) * rows m + r m \<ge> int (length (files m))"
    | (c) "(columns m - 1) * rows m + r m < int (length (files m))"
    by linarith
  then show ?thesis
  proof cases
    case b
    have cv: "c (moveRightmost m) = columns m - 1" "r (moveRightmost m) = last_row m"
      "columns (moveRightmost m) = columns m" "rows (moveRightmost m) = rows m"
      "files (moveRightmost m) = files m"
      using b by (simp_all add: moveRightmost_def Let_def past_last_def last_row_def)
    show ?thesis unfolding cursor_ok_def linear_index_def cv last_row_def
      using l f(1) by simp
  next
    case c
    have cv: "c (moveRightmost m) = columns m - 1" "r (moveRightmost m) = r m"
      "columns (moveRightmost m) = columns m" "rows (moveRightmost m) = rows m"
      "files (moveRightmost m) = files m"
      using c by (simp_all add: moveRightmost_def Let_def past_last_def)
    show ?thesis unfolding cursor_ok_def linear_index_def cv
      using c f(1,7,8) by simp
  qed
qed

lemma cursor_ok_index:
  assumes "1 \<le> rows m" "cursor_ok m"
  shows "0 \<le> linear_index m" "linear_index m < int (length (files m))"
proof -
  have "0 \<le> c m * rows m" using assms by (simp add: cursor_ok_def)
  then show "0 \<le> linear_index m" using assms(2) by (simp add: cursor_ok_def linear_index_def)
  show "linear_index m < int (length (files m))" using assms(2) by (simp add: cursor_ok_def)
qed

text \<open>In a grid whose last column is not empty every move keeps the cursor on an entry.\<close>

lemma moves_keep_cursor:
  assumes "grid_ok m" "cursor_ok m"
    and "move \<in> {moveUp, moveDown, moveLeft, moveRight, moveTop, moveBottom, moveLeftmost,
                  moveRightmost}"
  shows "cursor_ok (move m)"
  using assms moveUp_cursor moveDown_cursor moveLeft_cursor moveRight_cursor moveTop_cursor
    moveBottom_cursor moveLeftmost_cursor moveRightmost_cursor
  by blast

text \<open>
  C1 fails on a grid that \<^verbatim>\<open>View\<close> produces. With five entries on a 20 x 4 terminal
  the layout is four columns of two rows, whose last column is empty and whose third
  column holds one entry. The cursor on that entry, \<open>(2, 0)\<close>, is valid; Down moves it
  to \<open>(2, 1)\<close>, linear index 5, where there is no entry: the moves test only the last
  column for missing cells.
\<close>

theorem cursor_leaves_entries:
  "session example_env ''/five'' [WindowSizeMsg 20 4, pressed ''right'', pressed ''right'']
     = Inr five_model \<and>
   length (files five_model) = 5 \<and> cursor_ok five_model \<and> linear_index five_model = 4 \<and>
   moveDown five_model = five_model\<lparr>r := 1\<rparr> \<and>
   linear_index (moveDown five_model) = 5 \<and>
   fileName (moveDown five_model) = Inr ([], False) \<and>
   step example_env (pressed ''down'') five_model
     = Inr (five_model\<lparr>r := 1,
              positions := [(''/five'',
                \<lparr>position_c = 2, position_r = 1, position_offset = 0\<rparr>)]\<rparr>)"
  by code_simp

text \<open>The same happens on a standard terminal: with 71 short names on 80 x 24 the
  layout that \<^verbatim>\<open>View\<close> computes is ten columns of eight rows, and Down from the last
  entry, \<open>(8, 6)\<close>, goes to \<open>(8, 7)\<close>, linear index 71.\<close>

lemma standard_terminal_cursor_past_entries:
  "map_sum id fst (View_layout wide_model) = Inr wide_model \<and>
   length (files wide_model) = 71 \<and> cursor_ok wide_model \<and> linear_index wide_model = 70 \<and>
   moveDown wide_model = wide_model\<lparr>r := 7\<rparr> \<and>
   linear_index (moveDown wide_model) = 71 \<and>
   fileName (moveDown wide_model) = Inr ([], False)"
  by code_simp

text \<open>From the same cursor, Right enters the empty last column and sets the row to
  \<open>-2\<close>; the scroll offset follows it, and the next rendering slices the rows from a
  negative bound.\<close>

lemma cursor_right_of_entries_panics:
  "moveRight five_model = five_model\<lparr>c := 3, r := - 2\<rparr> \<and>
   Update example_env (pressed ''right'') five_model
     = Inr (five_model\<lparr>c := 3, r := - 2, offset := - 2,
              positions := [(''/five'',
                \<lparr>position_c = 3, position_r = - 2, position_offset = - 2\<rparr>)]\<rparr>, NoCmd) \<and>
   step example_env (pressed ''right'') five_model = Inl SliceBoundsOutOfRange"
  by code_simp

text \<open>
  C5, as the code has it. In a grid whose last column holds at least one entry, from
  a cursor on an entry, Down applied as many times as there are entries returns to the
  starting cell, and leaves the rest of the model as it is: Down visits the entries in
  order and wraps from the last entry to the first, skipping the missing cells of the
  last column.
\<close>

theorem moveDown_returns_after_all_entries:
  assumes g: "grid_ok m" and v: "cursor_ok m"
  shows "(moveDown ^^ length (files m)) m = m"
proof -
  let ?q = "(moveDown ^^ length (files m)) m"
  have it: "cursor_ok ?q" "rows ?q = rows m" "?q = m\<lparr>c := c ?q, r := r ?q\<rparr>"
    "linear_index ?q = (linear_index m + int (length (files m))) mod int (length (files m))"
    using moveDown_iterate[OF g v, of "length (files m)"] by blast+
  have b: "0 \<le> linear_index m" "linear_index m < int (length (files m))"
    using v unfolding cursor_ok_def linear_index_def by simp_all
  then have "linear_index ?q = linear_index m" using it(4) by simp
  then have "c ?q = c m" "r ?q = r m"
    using cursor_from_index[OF it(1)] cursor_from_index[OF v] it(2) by simp_all
  then show ?thesis using it(3) by simp
qed

text \<open>The theorem at \<^verbatim>\<open>/seven\<close>: seven entries in three columns of three rows.\<close>

theorem moveDown_returns_after_all_entries_witness:
  "grid_ok seven_model \<and> cursor_ok seven_model \<and> length (files seven_model) = 7 \<and>
   (moveDown ^^ 7) seven_model = seven_model"
proof -
  have h: "grid_ok seven_model" "cursor_ok seven_model" by code_simp+
  have n: "length (files seven_model) = 7" by code_simp
  show ?thesis
    using moveDown_returns_after_all_entries[OF h] h n by simp
qed

text \<open>
  C5 as stated fails where the last column is short: in the three by three grid of
  \<^verbatim>\<open>/seven\<close>, nine times Down from \<open>(0, 0)\<close> goes once around the seven entries
  and two cells further, to \<open>(0, 2)\<close>.
\<close>

theorem moveDown_grid_size_counterexample:
  "grid_ok seven_model \<and> cursor_ok seven_model \<and>
   nat (columns seven_model * rows seven_model) = 9 \<and>
   c seven_model = 0 \<and> r seven_model = 0 \<and>
   c ((moveDown ^^ 9) seven_model) = 0 \<and> r ((moveDown ^^ 9) seven_model) = 2"
proof -
  let ?q = "(moveDown ^^ 9) seven_model"
  have h: "grid_ok seven_model" "cursor_ok seven_model" by code_simp+
  have v: "nat (columns seven_model * rows seven_model) = 9" "c seven_model = 0"
    "r seven_model = 0" "rows seven_model = 3" "int (length (files seven_model)) = 7"
    "linear_index seven_model = 0"
    by code_simp+
  have it: "cursor_ok ?q" "rows ?q = rows seven_model"
    "linear_index ?q = (linear_index seven_model + int 9) mod int (length (files seven_model))"
    using moveDown_iterate[OF h, of 9] by blast+
  have "linear_index ?q = 2" using it(3) v(5,6) by simp
  then have "c ?q = 0" "r ?q = 2"
    using cursor_from_index[OF it(1)] it(2) v(4) by simp_all
  then show ?thesis using h v by simp
qed

subsection \<open>Layout\<close>

lemma ceil_quo_ceiling: "ceil_quo n k = \<lceil>real_of_int n / real_of_int k\<rceil>"
  by (simp add: ceil_quo_def ceiling_divide_eq_div)

lemma ceil_quo_covers:
  assumes "0 < k"
  shows "n \<le> k * ceil_quo n k" "k * ceil_quo n k < n + k"
proof -
  have e: "k * ((- n) div k) = - n - (- n) mod k"
    by (simp add: mult_div_mod_eq [symmetric] algebra_simps minus_mod_eq_mult_div)
  have b: "0 \<le> (- n) mod k" "(- n) mod k < k" using assms by simp_all
  have "k * ceil_quo n k = n + (- n) mod k"
    using e by (simp add: ceil_quo_def)
  then show "n \<le> k * ceil_quo n k" "k * ceil_quo n k < n + k" using b by simp_all
qed

lemma ceil_quo_pos: "0 < k \<Longrightarrow> 0 < n \<Longrightarrow> 1 \<le> ceil_quo n k"
proof -
  assume k: "0 < k" and n: "0 < n"
  have "0 < k * ceil_quo n k" using ceil_quo_covers(1)[OF k, of n] n by linarith
  then have "0 < ceil_quo n k" using k by (simp add: zero_less_mult_iff)
  then show ?thesis by simp
qed

lemma too_wide_iff:
  "\<not> too_wide names rws w \<longleftrightarrow>
     list_all (\<lambda>j. int (length (Join (row_of names j) separator)) \<le> w) [0..<nat rws]"
  by (auto simp add: too_wide_def list_ex_iff list_all_iff)

lemma layout_loop_result:
  assumes "1 \<le> cols"
  shows "case layout_loop fs fp pn w cols cur of
           (cols', rws', names', cur') \<Rightarrow>
             1 \<le> cols' \<and> cols' \<le> cols \<and> rws' = ceil_quo (int (length fs)) cols' \<and>
             (\<exists>cur0. names' = snd (build_names fs fp pn cols' rws' cur0)) \<and>
             (cols' = 1 \<or> \<not> too_wide names' rws' w)"
  using assms
proof (induction fs fp pn w cols cur rule: layout_loop.induct)
  case (1 fs fp pn w cols cur)
  let ?rws = "ceil_quo (int (length fs)) cols"
  let ?b = "build_names fs fp pn cols ?rws cur"
  show ?case
  proof (cases "too_wide (snd ?b) ?rws w \<and> cols > 1")
    case True
    then have "1 \<le> cols - 1" by simp
    from "1.IH"[OF True this] True show ?thesis
      by (subst layout_loop.simps) (auto split: prod.splits)
  next
    case False
    have ex: "\<exists>cur0. snd ?b = snd (build_names fs fp pn cols ?rws cur0)"
      by (rule exI[of _ cur]) simp
    from False ex show ?thesis using "1.prems"
      by (subst layout_loop.simps) auto
  qed
qed

lemma go_quo_3_zero: "go_quo h 3 = 0 \<longleftrightarrow> - 3 < h \<and> h < 3"
  by (auto simp add: go_quo_def sgn_if abs_if div_eq_0_iff)

lemma initial_columns_ok:
  "initial_columns m = Inl DivideByZero \<or> (\<exists>cols. initial_columns m = Inr cols \<and> 1 \<le> cols)"
  by (simp add: initial_columns_def Let_def)

text \<open>The first statement of the layout divides by a third of the list height: on a
  terminal of at most three lines (and not fewer than \<open>-1\<close>) it panics.\<close>

lemma View_layout_panics:
  "View_layout m = Inl DivideByZero \<longleftrightarrow> - 2 < height m \<and> height m < 4"
  by (auto simp add: View_layout_def initial_columns_def go_quo_3_zero listHeight_def Let_def
      split: prod.splits)

text \<open>Where the terminal has at least four lines (or a height below \<open>-1\<close>), the
  layout returns at least one column, the ceiling of the quotient as row count, and rows
  that fit the display unless there is one column only.\<close>

lemma View_layout_fits:
  assumes "height m \<le> - 2 \<or> 4 \<le> height m"
  shows "\<exists>m' names. View_layout m = Inr (m', names) \<and> files m' = files m \<and>
           1 \<le> columns m' \<and>
           rows m' = \<lceil>real (length (files m)) / real_of_int (columns m')\<rceil> \<and>
           (columns m' = 1 \<or>
            list_all (\<lambda>j. int (length (Join (row_of names j) separator)) \<le> view_width m)
              [0..<nat (rows m')])"
proof -
  have "go_quo (listHeight m) 3 \<noteq> 0"
    using assms by (auto simp add: go_quo_3_zero listHeight_def)
  then obtain cols0 where c0: "initial_columns m = Inr cols0" "1 \<le> cols0"
    by (auto simp add: initial_columns_def Let_def)
  obtain cols rws names cc rr where l:
    "layout_loop (files m) (findPrevName m) (prevName m) (view_width m) cols0 (c m, r m)
       = (cols, rws, names, cc, rr)"
    by (metis prod_cases5)
  have p: "1 \<le> cols" "rws = ceil_quo (int (length (files m))) cols"
    "cols = 1 \<or> \<not> too_wide names rws (view_width m)"
    using layout_loop_result[OF c0(2), of "files m" "findPrevName m" "prevName m"
        "view_width m" "(c m, r m)"] l
    by auto
  show ?thesis
    using c0 l p
    by (auto simp add: View_layout_def Let_def too_wide_iff ceil_quo_ceiling
        saveCursorPosition_def updateOffset_def)
qed

text \<open>After every rendering the grid has room for all entries, and at least one row when
  there is an entry.\<close>

lemma View_layout_grid:
  assumes "View_layout m = Inr (m', names)"
  shows "files m' = files m" "1 \<le> columns m'"
    "rows m' = ceil_quo (int (length (files m))) (columns m')"
    "int (length (files m)) \<le> columns m' * rows m'"
    "files m \<noteq> [] \<Longrightarrow> 1 \<le> rows m'"
proof -
  obtain cols0 where c0: "initial_columns m = Inr cols0" "1 \<le> cols0"
    using assms initial_columns_ok[of m] by (auto simp add: View_layout_def)
  obtain cols rws ns cc rr where l:
    "layout_loop (files m) (findPrevName m) (prevName m) (view_width m) cols0 (c m, r m)
       = (cols, rws, ns, cc, rr)"
    by (metis prod_cases5)
  have p: "1 \<le> cols" "rws = ceil_quo (int (length (files m))) cols"
    using layout_loop_result[OF c0(2), of "files m" "findPrevName m" "prevName m"
        "view_width m" "(c m, r m)"] l
    by auto
  have f: "files m' = files m" "columns m' = cols" "rows m' = rws"
    using assms c0 l
    by (auto simp add: View_layout_def Let_def saveCursorPosition_frame updateOffset_frame
        split: if_splits)
  show "files m' = files m" by (rule f(1))
  show "1 \<le> columns m'" using p(1) f(2) by simp
  show "rows m' = ceil_quo (int (length (files m))) (columns m')" using p(2) f by simp
  show "int (length (files m)) \<le> columns m' * rows m'"
    using ceil_quo_covers(1)[of cols "int (length (files m))"] p f by simp
  show "files m \<noteq> [] \<Longrightarrow> 1 \<le> rows m'"
    using ceil_quo_pos[of cols "int (length (files m))"] p f by simp
qed

text \<open>
  C2 fails on a terminal of three lines: the list height is 2, a third of it is 0 in
  integer arithmetic, and the first statement of the layout divides the entry count by
  it. (On terminals of at least four lines the claim holds: \<open>View_layout_fits\<close>.)
\<close>

theorem layout_short_terminal:
  "session example_env ''/five'' [WindowSizeMsg 80 3] = Inl DivideByZero \<and>
   Update example_env (WindowSizeMsg 80 3) five_model
     = Inr (five_model\<lparr>c := 0, r := 0, width := 80, height := 3, positions := [],
              prevName := ''e'', findPrevName := True\<rparr>, NoCmd) \<and>
   map_sum id fst
     (View_layout (five_model\<lparr>c := 0, r := 0, width := 80, height := 3, positions := [],
                     prevName := ''e'', findPrevName := True\<rparr>)) = Inl DivideByZero"
  by code_simp

subsection \<open>Search\<close>

lemma go_quo_nonneg: "0 \<le> a \<Longrightarrow> 0 < b \<Longrightarrow> go_quo a b = a div b"
  by (simp add: go_quo_def sgn_if)

lemma go_rem_nonneg: "0 \<le> a \<Longrightarrow> 0 < b \<Longrightarrow> go_rem a b = a mod b"
  by (simp add: go_rem_def go_quo_nonneg minus_mult_div_eq_mod)

lemma search_tick_result:
  "\<exists>m'. search_tick m = Inr (m', Tick (searchId m)) \<and> c m' = c m \<and> r m' = r m \<and>
        search m' = search m \<and> searchMode m' = searchMode m \<and> searchId m' = searchId m"
  by (simp add: search_tick_def Let_def saveCursorPosition_def updateOffset_def)

text \<open>
  C3. In search mode, a key message of type \<^verbatim>\<open>KeyRunes\<close> that is neither the search
  key nor Backspace appends its characters to the query and runs the matcher on the
  names of the current directory. With at least one match the cursor becomes
  \<open>(index / rows, index % rows)\<close> for the index of the first match; with no match the
  cursor stays where it is. The grid has at least one row whenever there is a match:
  \<^verbatim>\<open>View\<close> has laid out a directory that is not empty (\<open>View_layout_grid\<close>).
\<close>

theorem search_keystroke_cursor:
  assumes "searchMode m" "isRunes k" "\<not> key_Matches k keySearch" "\<not> key_Matches k keyBack"
    and "fuzzyFind e (search m @ runes k) (map name (files m)) \<noteq> [] \<longrightarrow> rows m \<noteq> 0"
  shows "\<exists>m'. Update e (KeyMsg k) m = Inr (m', Tick (searchId m)) \<and>
           search m' = search m @ runes k \<and>
           (case fuzzyFind e (search m @ runes k) (map name (files m)) of
              [] \<Rightarrow> c m' = c m \<and> r m' = r m
            | best # rest \<Rightarrow>
                c m' = go_quo (Index best) (rows m) \<and> r m' = go_rem (Index best) (rows m))"
proof (cases "fuzzyFind e (search m @ runes k) (map name (files m))")
  case Nil
  then show ?thesis
    using assms search_tick_result[of "m\<lparr>search := search m @ runes k\<rparr>"]
    by (auto simp add: update_Key_def search_runes_def Let_def)
next
  case (Cons best rest)
  then have "rows m \<noteq> 0" using assms(5) by simp
  then show ?thesis
    using assms(1-4) Cons
      search_tick_result[of "m\<lparr>search := search m @ runes k,
         matchedIndexes := MatchedIndexes best, c := go_quo (Index best) (rows m),
         r := go_rem (Index best) (rows m)\<rparr>"]
    by (auto simp add: update_Key_def search_runes_def Let_def)
qed

text \<open>The theorem at \<^verbatim>\<open>/seven\<close> with the character \<^verbatim>\<open>e\<close>: the fifth entry, in
  the middle of the three by three grid.\<close>

theorem search_keystroke_cursor_witness:
  "searchMode seven_search_model \<and>
   isRunes \<lparr>keyString = ''e'', isRunes = True, runes = ''e''\<rparr> \<and>
   \<not> key_Matches \<lparr>keyString = ''e'', isRunes = True, runes = ''e''\<rparr> keySearch \<and>
   \<not> key_Matches \<lparr>keyString = ''e'', isRunes = True, runes = ''e''\<rparr> keyBack \<and>
   rows seven_search_model \<noteq> 0 \<and>
   fuzzyFind example_env ''e'' (map name (files seven_search_model))
     = [\<lparr>Index = 4, MatchedIndexes = [0]\<rparr>] \<and>
   (\<exists>m'. Update example_env (typed ''e'') seven_search_model = Inr (m', Tick 1) \<and>
         search m' = ''e'' \<and> c m' = 1 \<and> r m' = 1)"
proof -
  let ?k = "\<lparr>keyString = ''e'', isRunes = True, runes = ''e''\<rparr>"
  have h1: "searchMode seven_search_model" by code_simp
  have h2: "isRunes ?k" by simp
  have h3: "\<not> key_Matches ?k keySearch" by code_simp
  have h4: "\<not> key_Matches ?k keyBack" by code_simp
  have h5: "rows seven_search_model \<noteq> 0" by code_simp
  have s: "search seven_search_model = []" by code_simp
  have f: "fuzzyFind example_env ''e'' (map name (files seven_search_model))
             = [\<lparr>Index = 4, MatchedIndexes = [0]\<rparr>]"
    by code_simp
  have v: "rows seven_search_model = 3" "searchId seven_search_model = 1" by code_simp+
  have q: "go_quo 4 3 = 1" "go_rem 4 3 = 1" by code_simp+
  from search_keystroke_cursor[of seven_search_model ?k example_env, OF h1 h2 h3 h4]
  have "\<exists>m'. Update example_env (typed ''e'') seven_search_model = Inr (m', Tick 1) \<and>
         search m' = ''e'' \<and> c m' = 1 \<and> r m' = 1"
    using h5 by (simp add: s f v q typed_def)
  then show ?thesis using h1 h2 h3 h4 h5 f by blast
qed




subsection \<open>The clear-search event\<close>

text \<open>
  C6. Delivering a clear-search event with tag \<open>tag\<close> returns no command and changes
  at most the search mode: afterwards search mode is off exactly when the tag equals the
  current search id or search mode was off already; when the tag differs from the current
  search id (a newer activation has incremented it) the model is unchanged.
\<close>

theorem clear_search_delivery:
  "\<exists>m'. Update e (ClearSearchMsg tag) m = Inr (m', NoCmd) \<and>
        m' = m\<lparr>searchMode := searchMode m \<and> tag \<noteq> searchId m\<rparr> \<and>
        (\<not> searchMode m' \<longleftrightarrow> tag = searchId m \<or> \<not> searchMode m) \<and>
        (tag \<noteq> searchId m \<longrightarrow> m' = m)"
  by auto

text \<open>The theorem at \<^verbatim>\<open>/seven\<close> with search id 1: the stale tag 0 changes
  nothing, the current tag 1 leaves search mode.\<close>

theorem clear_search_delivery_witness:
  "(0::int) \<noteq> searchId seven_search_model \<and> searchMode seven_search_model \<and>
   Update example_env (ClearSearchMsg 0) seven_search_model = Inr (seven_search_model, NoCmd) \<and>
   (\<exists>m'. Update example_env (ClearSearchMsg 1) seven_search_model = Inr (m', NoCmd) \<and>
         \<not> searchMode m')"
proof -
  have h: "(0::int) \<noteq> searchId seven_search_model" "searchMode seven_search_model"
    "1 = searchId seven_search_model"
    by code_simp+
  show ?thesis
    using clear_search_delivery[of example_env 0 seven_search_model]
      clear_search_delivery[of example_env 1 seven_search_model] h
    by auto
qed

text \<open>Activating search increments the search id, so the tag of every tick scheduled
  before is different from it.\<close>

lemma search_key_increments_searchId:
  assumes "\<not> searchMode m" "key_Matches k keySearch"
  shows "\<exists>m' command. Update e (KeyMsg k) m = Inr (m', command) \<and> searchMode m' \<and>
           searchId m' = searchId m + 1 \<and> search m' = []"
  using assms
  by (simp add: update_Key_def key_switch_def key_Matches_def keySearch_def keyForceQuit_def
      keyQuit_def keyOpen_def keyBack_def keyUp_def keyTop_def keyVimTop_def keyBottom_def
      keyVimBottom_def keyLeftmost_def keyRightmost_def keyVimUp_def keyDown_def
      keyVimDown_def keyLeft_def keyVimLeft_def keyRight_def keyVimRight_def finish_def
      Let_def saveCursorPosition_def updateOffset_def)

lemma updateOffset_searchId: "searchId (updateOffset m) = searchId m"
  "searchMode (updateOffset m) = searchMode m"
  by (simp_all add: updateOffset_def Let_def)

lemma saveCursorPosition_searchId: "searchId (saveCursorPosition m) = searchId m"
  "searchMode (saveCursorPosition m) = searchMode m"
  by (simp_all add: saveCursorPosition_def)

lemma moves_searchId:
  "searchId (moveUp m) = searchId m" "searchId (moveDown m) = searchId m"
  "searchId (moveLeft m) = searchId m" "searchId (moveRight m) = searchId m"
  "searchId (moveTop m) = searchId m" "searchId (moveBottom m) = searchId m"
  "searchId (moveLeftmost m) = searchId m" "searchId (moveRightmost m) = searchId m"
  by (simp_all add: moveUp_def moveDown_def moveLeft_def moveRight_def moveTop_def
      moveBottom_def moveLeftmost_def moveRightmost_def Let_def)

lemma finish_searchId:
  "finish m = Inr (m', command) \<Longrightarrow> searchId m' = searchId m \<and> (\<forall>tag. command \<noteq> Tick tag)"
  by (auto simp add: finish_result updateOffset_searchId saveCursorPosition_searchId
      split: if_splits)

lemma search_tick_searchId:
  "search_tick m = Inr (m', command) \<Longrightarrow> searchId m' = searchId m \<and> command = Tick (searchId m)"
  by (auto simp add: search_tick_def Let_def updateOffset_searchId saveCursorPosition_searchId)

lemma key_open_searchId:
  "key_open e m = Inr (m', command) \<Longrightarrow> searchId m' = searchId m \<and> (\<forall>tag. command \<noteq> Tick tag)"
  by (auto simp add: key_open_def Let_def list_def restore_position_def openEditor_def
      dest!: finish_searchId split: sum.splits prod.splits if_splits option.splits bool.splits)

lemma key_back_searchId:
  "key_back e m = Inr (m', command) \<Longrightarrow> searchId m' = searchId m \<and> (\<forall>tag. command \<noteq> Tick tag)"
  by (auto simp add: key_back_def Let_def list_def restore_position_def
      split: sum.splits option.splits if_splits)

lemma key_preview_searchId:
  "key_preview m = Inr (m', command) \<Longrightarrow> searchId m' = searchId m \<and> (\<forall>tag. command \<noteq> Tick tag)"
  by (auto simp add: key_preview_def Let_def split: sum.splits prod.splits if_splits)

lemma key_switch_searchId:
  assumes "key_switch e k m = Inr (m', command)"
  shows "searchId m \<le> searchId m' \<and> (\<forall>tag. command \<noteq> Tick tag)"
  using assms
  by (auto simp add: key_switch_def moves_searchId
      dest!: finish_searchId key_open_searchId key_back_searchId key_preview_searchId
      split: if_splits)

lemma search_runes_searchId:
  "search_runes e k m = Inr (m', command) \<Longrightarrow> searchId m' = searchId m \<and> command = Tick (searchId m)"
  by (auto simp add: search_runes_def Let_def dest!: search_tick_searchId
      split: list.splits if_splits)

text \<open>The search id never decreases, and a tick carries the search id of the state that
  \<^verbatim>\<open>Update\<close> returns with it.\<close>

lemma Update_searchId:
  assumes "Update e message m = Inr (m', command)"
  shows "searchId m \<le> searchId m'" "\<And>tag. command = Tick tag \<Longrightarrow> tag = searchId m'"
proof -
  show "searchId m \<le> searchId m'"
    using assms
    by (cases message)
       (auto simp add: update_WindowSize_def update_Key_def update_Preview_def Let_def
          dest!: key_switch_searchId search_runes_searchId
          split: sum.splits prod.splits if_splits)
  show "\<And>tag. command = Tick tag \<Longrightarrow> tag = searchId m'"
    using assms
    by (cases message)
       (auto simp add: update_WindowSize_def update_Key_def update_Preview_def Let_def
          dest!: key_switch_searchId search_runes_searchId
          split: sum.splits prod.splits if_splits)
qed

subsection \<open>Preview\<close>

lemma ReplaceAllChar_tabs: "ReplaceAllChar s tab ''    '' = expand_tabs s"
  by (induction s) (simp_all add: ReplaceAllChar_def tab_def)

lemma expand_tabs_no_tab: "CHR 0x09 \<notin> set (expand_tabs s)"
  by (induction s) simp_all

lemma expand_tabs_length:
  "length (expand_tabs s) = length s + 3 * length (filter (\<lambda>x. x = CHR 0x09) s)"
  by (induction s) simp_all

text \<open>
  C7. Delivering the preview message of a path changes only the preview content: it is
  the error's text when the file cannot be opened; the bytes read with every tab replaced
  by four spaces when they are valid UTF-8; and otherwise the rendering of the fixed text
  \<^verbatim>\<open>No preview available\<close>, whatever the bytes are.
\<close>

theorem preview_load_content:
  "Update e (PreviewMsg p) m =
     Inr (m\<lparr>previewContent :=
            (case openAndRead e p of
               Inl err \<Rightarrow> err
             | Inr bytes \<Rightarrow>
                 if utf8Valid e bytes then expand_tabs bytes
                 else renderWarning e ''No preview available'')\<rparr>, NoCmd)"
  by (simp add: update_Preview_def ReplaceAllChar_tabs split: sum.splits)

subsection \<open>No selected file\<close>

lemma fileName_ok:
  assumes "1 \<le> rows m" "0 \<le> c m" "0 \<le> r m"
  shows "fileName m =
     (if linear_index m \<ge> int (length (files m)) then Inr ([], False)
      else Inr (name (files m ! nat (linear_index m)), True))"
proof -
  have "0 \<le> c m * rows m" using assms by simp
  then have "0 \<le> linear_index m" using assms(3) by (simp add: linear_index_def)
  then show ?thesis by (simp add: fileName_def linear_index_def Let_def)
qed

lemma filePath_ok:
  assumes "1 \<le> rows m" "0 \<le> c m" "0 \<le> r m"
  shows "filePath m =
     (if linear_index m \<ge> int (length (files m)) then Inr ([], False)
      else Inr (path_Join (path m) (name (files m ! nat (linear_index m))), True))"
  by (simp add: filePath_def fileName_ok[OF assms])

lemma enter_key_reaches_open:
  assumes "key_Matches k keyOpen" "\<not> isRunes k"
  shows "Update e (KeyMsg k) m = key_open e m"
  using assms
  by (simp add: update_Key_def key_switch_def key_Matches_def keySearch_def keyForceQuit_def
      keyQuit_def keyOpen_def keyBack_def)

text \<open>
  C10, as the code has it. In a model with at least one row and a cursor with
  non-negative coordinates, \<^verbatim>\<open>fileName\<close> and \<^verbatim>\<open>filePath\<close> return
  \<open>ok = false\<close> exactly when the linear index is not below the number of entries. In
  that case Enter returns no command and changes nothing but the search mode, which it
  turns off before it looks for the file; the preview command yields no message and
  running it leaves the model as it is.
\<close>

theorem no_selected_file:
  assumes "1 \<le> rows m" "0 \<le> c m" "0 \<le> r m"
  shows "((\<exists>s. fileName m = Inr (s, False)) \<longleftrightarrow> linear_index m \<ge> int (length (files m))) \<and>
         ((\<exists>s. filePath m = Inr (s, False)) \<longleftrightarrow> linear_index m \<ge> int (length (files m))) \<and>
         (linear_index m \<ge> int (length (files m)) \<longrightarrow>
            (\<forall>k. key_Matches k keyOpen \<and> \<not> isRunes k \<longrightarrow>
                Update e (KeyMsg k) m = Inr (m\<lparr>searchMode := False\<rparr>, NoCmd)) \<and>
            previewCmd m = Inr None \<and>
            run_previewCmd e m = Inr (m, NoCmd))"
proof (intro conjI impI allI)
  show "(\<exists>s. fileName m = Inr (s, False)) \<longleftrightarrow> linear_index m \<ge> int (length (files m))"
    by (simp add: fileName_ok[OF assms])
  show "(\<exists>s. filePath m = Inr (s, False)) \<longleftrightarrow> linear_index m \<ge> int (length (files m))"
    by (simp add: filePath_ok[OF assms])
next
  fix k
  assume i: "int (length (files m)) \<le> linear_index m" and k: "key_Matches k keyOpen \<and> \<not> isRunes k"
  have a: "1 \<le> rows (m\<lparr>searchMode := False\<rparr>)" "0 \<le> c (m\<lparr>searchMode := False\<rparr>)"
    "0 \<le> r (m\<lparr>searchMode := False\<rparr>)"
    using assms by simp_all
  have "filePath (m\<lparr>searchMode := False\<rparr>) = Inr ([], False)"
    using i by (simp add: filePath_ok[OF a] linear_index_def)
  then have "key_open e m = Inr (m\<lparr>searchMode := False\<rparr>, NoCmd)"
    by (simp add: key_open_def Let_def)
  then show "Update e (KeyMsg k) m = Inr (m\<lparr>searchMode := False\<rparr>, NoCmd)"
    using enter_key_reaches_open k by simp
next
  assume i: "int (length (files m)) \<le> linear_index m"
  then show p: "previewCmd m = Inr None"
    by (simp add: previewCmd_def filePath_ok[OF assms])
  then show "run_previewCmd e m = Inr (m, NoCmd)"
    by (simp add: run_previewCmd_def)
qed

text \<open>The theorem at the cursor below the last entry of \<^verbatim>\<open>/five\<close>.\<close>

theorem no_selected_file_witness:
  "1 \<le> rows stray_model \<and> 0 \<le> c stray_model \<and> 0 \<le> r stray_model \<and>
   linear_index stray_model \<ge> int (length (files stray_model)) \<and>
   key_Matches \<lparr>keyString = ''enter'', isRunes = False, runes = []\<rparr> keyOpen \<and>
   fileName stray_model = Inr ([], False) \<and> filePath stray_model = Inr ([], False) \<and>
   Update example_env (pressed ''enter'') stray_model
     = Inr (stray_model\<lparr>searchMode := False\<rparr>, NoCmd) \<and>
   run_previewCmd example_env stray_model = Inr (stray_model, NoCmd)"
proof -
  let ?k = "\<lparr>keyString = ''enter'', isRunes = False, runes = []\<rparr>"
  have h: "1 \<le> rows stray_model" "0 \<le> c stray_model" "0 \<le> r stray_model" by code_simp+
  have i: "linear_index stray_model \<ge> int (length (files stray_model))" by code_simp
  have k: "key_Matches ?k keyOpen" "\<not> isRunes ?k" by code_simp+
  have n: "fileName stray_model = Inr ([], False)" "filePath stray_model = Inr ([], False)"
    by code_simp+
  show ?thesis
    using no_selected_file[OF h, of example_env] h i k n by (simp add: pressed_def)
qed

text \<open>
  C10 as stated fails: with the cursor below the last entry of \<^verbatim>\<open>/five\<close> and search
  mode active, Enter finds no file and still changes the model: search mode is off
  afterwards.
\<close>

theorem enter_leaves_search_mode_counterexample:
  "1 \<le> rows stray_model \<and> 0 \<le> c stray_model \<and> 0 \<le> r stray_model \<and>
   linear_index stray_model \<ge> int (length (files stray_model)) \<and>
   Update example_env (pressed ''enter'') stray_model
     = Inr (stray_model\<lparr>searchMode := False\<rparr>, NoCmd) \<and>
   stray_model\<lparr>searchMode := False\<rparr> \<noteq> stray_model"
  by code_simp

subsection \<open>Position memory\<close>

text \<open>Going up from a directory that was entered by name leads back to where it was
  entered from, and the name left behind is that name: the keys of the position map agree.\<close>

lemma path_Up_Join:
  assumes "slash \<notin> set n" "p \<noteq> []"
  shows "path_Up (path_Join p n) = p"
proof -
  have ns: "x \<noteq> slash" if "x \<in> set (rev n)" for x using that assms(1) by auto
  have d: "dropWhile (\<lambda>x. x \<noteq> slash) (rev n @ slash # ys) = slash # ys" for ys
    using dropWhile_append2[of "rev n" "\<lambda>x. x \<noteq> slash" "slash # ys"] ns by simp
  show ?thesis
  proof (cases "p = [slash]")
    case True
    then show ?thesis using d[of "[]"] by (simp add: path_Up_def path_Join_def)
  next
    case False
    then show ?thesis using d[of "rev p"] assms(2) by (simp add: path_Up_def path_Join_def)
  qed
qed

lemma path_Base_Join:
  assumes "slash \<notin> set n" "n \<noteq> []" "p \<noteq> []"
  shows "path_Base (path_Join p n) = n"
proof -
  have ns: "x \<noteq> slash" if "x \<in> set (rev n)" for x using that assms(1) by auto
  have t: "takeWhile (\<lambda>x. x \<noteq> slash) (rev n @ slash # ys) = rev n" for ys
    using takeWhile_append2[of "rev n" "\<lambda>x. x \<noteq> slash" "slash # ys"] ns by simp
  show ?thesis
  proof (cases "p = [slash]")
    case True
    then show ?thesis using t[of "[]"] assms(2) by (simp add: path_Base_def path_Join_def)
  next
    case False
    have "p @ slash # n \<noteq> [slash]" using assms(3) by (cases p) auto
    then show ?thesis using False t[of "rev p"] assms(2,3)
      by (simp add: path_Base_def path_Join_def)
  qed
qed

lemma updateOffset_keeps:
  assumes "offset m \<le> r m" "r m < offset m + listHeight m"
    and "rows m \<le> listHeight m \<or> offset m \<le> rows m - listHeight m"
  shows "updateOffset m = m"
proof -
  have a: "\<not> r m \<ge> offset m + listHeight m" "\<not> r m < offset m"
    "\<not> (offset m > rows m - listHeight m \<and> rows m > listHeight m)"
    using assms by linarith+
  show ?thesis by (simp add: updateOffset_def Let_def a)
qed

lemma updateOffset_stale_rows:
  assumes "offset m \<le> r m" "r m < offset m + listHeight m"
    and "listHeight m < rows m" "rows m - listHeight m < offset m"
  shows "offset (updateOffset m) = rows m - listHeight m"
  using assms by (simp add: updateOffset_def Let_def)

lemma filePath_searchMode: "filePath (m\<lparr>searchMode := b\<rparr>) = filePath m"
  by (simp add: filePath_def fileName_def Let_def)

lemma updateOffset_offset_cong:
  assumes "r m = r m'" "offset m = offset m'" "rows m = rows m'" "height m = height m'"
  shows "offset (updateOffset m) = offset (updateOffset m')"
  using assms by (simp add: updateOffset_def Let_def listHeight_def)

text \<open>Entering a directory with a remembered position restores column and row as they
  were saved; the offset is the saved one after \<^verbatim>\<open>updateOffset\<close>, which still sees the
  row count of the directory just left.\<close>

lemma reenter_directory:
  assumes "key_Matches k keyOpen" "\<not> isRunes k"
    and "filePath m = Inr (fp, True)" "statIsDir e fp = Some True"
    and "map_of (positions m) fp = Some p" "readDir e fp = Some fs"
  shows "\<exists>m' command. Update e (KeyMsg k) m = Inr (m', command) \<and>
           path m' = fp \<and> files m' = fs \<and> rows m' = rows m \<and>
           c m' = position_c p \<and> r m' = position_r p \<and>
           offset m' = offset (updateOffset (m\<lparr>r := position_r p, offset := position_offset p\<rparr>))"
proof -
  let ?m4 = "m\<lparr>searchMode := False, path := fp, c := position_c p, r := position_r p,
               offset := position_offset p, files := fs\<rparr>"
  have "Update e (KeyMsg k) m = key_open e m"
    using assms(1,2) by (rule enter_key_reaches_open)
  also have "\<dots> = finish ?m4"
    using assms(3-6)
    by (simp add: key_open_def Let_def filePath_searchMode list_def restore_position_def)
  finally have u: "Update e (KeyMsg k) m =
      Inr (saveCursorPosition (updateOffset ?m4), if previewMode ?m4 then PreviewCmd else NoCmd)"
    by (simp only: finish_result)
  have o: "offset (updateOffset ?m4)
           = offset (updateOffset (m\<lparr>r := position_r p, offset := position_offset p\<rparr>))"
    by (rule updateOffset_offset_cong) simp_all
  show ?thesis
    unfolding u using o by (simp add: saveCursorPosition_frame updateOffset_frame)
qed

text \<open>
  C8 fails in the scroll offset. On a 5 x 4 terminal \<^verbatim>\<open>/p\<close> is one column of four
  rows and \<^verbatim>\<open>/p/a\<close> one column of five. After entering \<^verbatim>\<open>/p/a\<close> and moving to
  its last row the position saved for it is \<open>(0, 4, 2)\<close>. Going up and entering
  again restores column 0 and row 4, but the offset becomes 1: after restoring, Enter
  runs \<^verbatim>\<open>updateOffset\<close> with the four rows of \<^verbatim>\<open>/p\<close>, which limits the offset
  to \<open>rows - listHeight = 1\<close>, and saves that.
\<close>

theorem reentry_clamps_offset:
  "session example_env ''/p'' [WindowSizeMsg 5 4, pressed ''enter'', pressed ''shift+down'']
     = Inr inside_a_model \<and>
   map_of (positions inside_a_model) (path inside_a_model)
     = Some \<lparr>position_c = c inside_a_model, position_r = r inside_a_model,
              position_offset = offset inside_a_model\<rparr> \<and>
   offset inside_a_model = 2 \<and>
   event_loop example_env [pressed ''backspace'', pressed ''enter''] inside_a_model
     = Inr (inside_a_model\<lparr>offset := 1,
              positions :=
                [(''/p'', \<lparr>position_c = 0, position_r = 0, position_offset = 0\<rparr>),
                 (''/p/a'', \<lparr>position_c = 0, position_r = 4, position_offset = 1\<rparr>)]\<rparr>)"
  by code_simp

text \<open>On the way, in \<^verbatim>\<open>/p\<close>, the position saved for \<^verbatim>\<open>/p/a\<close> is untouched.\<close>

lemma reentry_parent_state:
  "event_loop example_env [pressed ''backspace''] inside_a_model
     = Inr (inside_a_model\<lparr>path := ''/p'',
              files := [directory ''a'', plain_file ''b'', plain_file ''c'', plain_file ''d''],
              r := 0, rows := 4, offset := 0\<rparr>)"
  by code_simp

subsection \<open>The location bar\<close>

lemma truncate_location_panics:
  "truncate_location location flt w = Inl SliceBoundsOutOfRange \<longleftrightarrow> w < int (length flt)"
  by (auto simp add: truncate_location_def Let_def)

text \<open>The bar panics exactly when the filter text alone is longer than the display is
  wide, whatever the location; and when layout and rows have been rendered, the panic of
  the bar is the result of \<^verbatim>\<open>View\<close>.\<close>

lemma View_bar_panics:
  "View_bar e m = Inl SliceBoundsOutOfRange \<longleftrightarrow> view_width m < int (length (filter_text m))"
  by (auto simp add: View_bar_def truncate_location_def Let_def split: sum.splits)

lemma View_panics_in_bar:
  assumes "View_layout m = Inr (m1, names)"
    and "View_output e m1 names = Inr output"
    and "view_width m1 < int (length (filter_text m1))"
  shows "View e m = Inl SliceBoundsOutOfRange"
proof -
  have "View_bar e m1 = Inl SliceBoundsOutOfRange"
    using assms(3) by (simp add: View_bar_panics)
  then show ?thesis
    using assms(1,2) by (simp add: View_def)
qed

text \<open>
  C9. There is a state of the program with search mode active in which location and
  filter together are longer than the display is wide and the lower bound of the slice
  \<^verbatim>\<open>location[barLen-width:]\<close> is greater than the length of the location, so that
  the truncation in \<^verbatim>\<open>View\<close> is out of range. The state is the one reached in
  \<^verbatim>\<open>/p\<close> on a display of width 5 by the search key, the query \<^verbatim>\<open>abcd\<close> and
  the character \<^verbatim>\<open>e\<close>.
  There \<^verbatim>\<open>View\<close> lays the four entries out in one column and renders the three
  visible rows without a panic; the location is \<^verbatim>\<open>/p\<close>, of length 2, the filter
  \<^verbatim>\<open>/abcde\<close>, of length 6, so the bar slices the location from 8 - 5 = 3, and it is
  the bar, and through it \<^verbatim>\<open>View\<close>, that panics.
\<close>

theorem location_truncation_out_of_range:
  "session example_env ''/p'' [WindowSizeMsg 5 4, typed ''/'', typed ''abcd'']
     = Inr (narrow_search_model\<lparr>search := ''abcd''\<rparr>) \<and>
   Update example_env (typed ''e'') (narrow_search_model\<lparr>search := ''abcd''\<rparr>)
     = Inr (narrow_search_model, Tick 1) \<and>
   searchMode narrow_search_model \<and>
   View_layout narrow_search_model
     = Inr (narrow_search_model, [[''a/'', ''b '', ''c '', ''d '']]) \<and>
   View_output example_env narrow_search_model [[''a/'', ''b '', ''c '', ''d '']]
     = Inr [''a/'', ''b '', ''c ''] \<and>
   location_text example_env narrow_search_model = ''/p'' \<and>
   filter_text narrow_search_model = ''/abcde'' \<and>
   view_width narrow_search_model = 5 \<and>
   int (length (location_text example_env narrow_search_model))
     + int (length (filter_text narrow_search_model)) > view_width narrow_search_model \<and>
   int (length (location_text example_env narrow_search_model))
     + int (length (filter_text narrow_search_model)) - view_width narrow_search_model
     > int (length (location_text example_env narrow_search_model)) \<and>
   View_bar example_env narrow_search_model = Inl SliceBoundsOutOfRange \<and>
   View example_env narrow_search_model = Inl SliceBoundsOutOfRange"
  by code_simp

subsection \<open>The concrete states are states of the program\<close>

lemma seven_model_reached:
  "session example_env ''/seven'' [WindowSizeMsg 80 8] = Inr seven_model"
  by code_simp

lemma seven_search_model_reached:
  "session example_env ''/seven'' [WindowSizeMsg 80 8, typed ''/''] = Inr seven_search_model"
  by code_simp

lemma stray_model_reached:
  "session example_env ''/five''
     [WindowSizeMsg 20 4, pressed ''right'', pressed ''right'', pressed ''down'', typed ''/'']
   = Inr stray_model"
  by code_simp

lemma x_search_model_reached:
  "session example_env ''/x'' [typed ''/'', typed ''x'', typed ''b''] = Inr x_search_model"
  by code_simp

text \<open>The query \<^verbatim>\<open>abcd\<close> still fits the narrow display; with one more character
  \<^verbatim>\<open>Update\<close> returns the state of C9, and the rendering that follows panics.\<close>

lemma narrow_search_model_reached:
  "session example_env ''/p'' [WindowSizeMsg 5 4, typed ''/'', typed ''abcd'']
     = Inr (narrow_search_model\<lparr>search := ''abcd''\<rparr>) \<and>
   Update example_env (typed ''e'') (narrow_search_model\<lparr>search := ''abcd''\<rparr>)
     = Inr (narrow_search_model, Tick 1) \<and>
   session example_env ''/p'' [WindowSizeMsg 5 4, typed ''/'', typed ''abcd'', typed ''e'']
     = Inl SliceBoundsOutOfRange"
  by code_simp

end
